theory Spec2Isabelle
  imports Main "HOL-Library.Word" "HOL-Library.AList"
begin

unbundle bit_operations_syntax

section \<open>The CDB converter (cdb\_converter.js)\<close>

text \<open>
  A shallow embedding of the CDB reader, the CDB writer and the two conversions
  \<open>cdbToSQLite\<close> and \<open>sqliteToCDB\<close>. Bytes are \<open>8 word\<close>, the 32-bit words
  of the format are \<open>32 word\<close>, cursor positions are natural numbers, and the
  JavaScript numbers that the code computes with (all of them integers far below
  \<open>2 ^ 53\<close>, where IEEE doubles are exact) are \<open>int\<close>.
\<close>

type_synonym u8 = "8 word"
type_synonym u32 = "32 word"

subsection \<open>JavaScript integer operators\<close>

text \<open>
  \<open>a & b\<close> converts both operands with ToInt32 (wrap to the signed 32-bit range)
  and takes the bitwise and; \<open>a | 0\<close> is ToInt32 itself.
\<close>

definition ToInt32 :: "int \<Rightarrow> int" where
  "ToInt32 x = signed_take_bit 31 x"

definition ToUint32 :: "int \<Rightarrow> int" where
  "ToUint32 x = take_bit 32 x"

definition js_and :: "int \<Rightarrow> int \<Rightarrow> int" where
  "js_and a b = ToInt32 a AND ToInt32 b"

subsection \<open>The metadata codec\<close>

text \<open>
  \<open>cdbToSQLite\<close>: \<open>(table.tableId * 256 + col.columnIndex) * 16 + (col.type & 0xF)\<close>.
\<close>

definition encodedValue :: "int \<Rightarrow> int \<Rightarrow> int \<Rightarrow> int" where
  "encodedValue tableId columnIndex type = (tableId * 256 + columnIndex) * 16 + js_and type 0xF"

text \<open>
  \<open>sqliteToCDB\<close>: \<open>dataType = encodedValue & 0xF\<close> and
  \<open>columnIndex = Math.floor(encodedValue / 16) & 0xFF\<close>. The converter itself takes
  the table identifier from \<open>DB_STRUCTURE\<close>; CDB\_FORMAT.md gives its decoding formula
  \<open>table_id = Math.floor(encoded_value / (256 * 16))\<close>.
\<close>

definition cdbDataType :: "int \<Rightarrow> int" where
  "cdbDataType encoded = js_and encoded 0xF"

definition cdbColumnIndex :: "int \<Rightarrow> int" where
  "cdbColumnIndex encoded = js_and (encoded div 16) 0xFF"

definition cdbTableId :: "int \<Rightarrow> int" where
  "cdbTableId encoded = encoded div (256 * 16)"

definition unpack :: "int \<Rightarrow> int \<times> int \<times> int" where
  "unpack encoded = (cdbTableId encoded, cdbColumnIndex encoded, cdbDataType encoded)"

subsection \<open>Bytes, words and text\<close>

type_synonym bytes = "u8 list"

text \<open>\<open>DataView.getUint32(pos, true)\<close> and \<open>setUint32(pos, v, true)\<close>: little-endian.\<close>

definition word_of_bytes :: "u8 \<Rightarrow> u8 \<Rightarrow> u8 \<Rightarrow> u8 \<Rightarrow> u32" where
  "word_of_bytes b0 b1 b2 b3 =
     ucast b0 OR push_bit 8 (ucast b1) OR push_bit 16 (ucast b2) OR push_bit 24 (ucast b3)"

definition get32 :: "bytes \<Rightarrow> nat \<Rightarrow> u32" where
  "get32 d p = word_of_bytes (d ! p) (d ! (p + 1)) (d ! (p + 2)) (d ! (p + 3))"

definition le32 :: "u32 \<Rightarrow> bytes" where
  "le32 v = [ucast v, ucast (drop_bit 8 v), ucast (drop_bit 16 v), ucast (drop_bit 24 v)]"

text \<open>
  JavaScript strings are modelled by their UTF-8 bytes, one \<open>char\<close> per byte, so that
  \<open>TextDecoder.decode\<close> and \<open>TextEncoder.encode\<close> are the two directions of the
  byte/character correspondence (exact for well-formed UTF-8 without a byte-order mark).
\<close>

definition char_of_byte :: "u8 \<Rightarrow> char" where
  "char_of_byte w = Char (bit w 0) (bit w 1) (bit w 2) (bit w 3) (bit w 4) (bit w 5) (bit w 6) (bit w 7)"

definition byte_of_char :: "char \<Rightarrow> u8" where
  "byte_of_char c = of_nat (of_char c)"

definition decodeText :: "bytes \<Rightarrow> string" where
  "decodeText bs = map char_of_byte bs"

definition encodeText :: "string \<Rightarrow> bytes" where
  "encodeText s = map byte_of_char s"

text \<open>Decimal rendering of integers (\<open>String(n)\<close>, template literals, \<open>join\<close>).\<close>

definition digit_char :: "nat \<Rightarrow> char" where
  "digit_char d = ''0123456789'' ! d"

fun nat_to_string :: "nat \<Rightarrow> string" where
  "nat_to_string n =
     (if n < 10 then [digit_char n] else nat_to_string (n div 10) @ [digit_char (n mod 10)])"

declare nat_to_string.simps [simp del]

definition int_to_string :: "int \<Rightarrow> string" where
  "int_to_string i = (if i < 0 then CHR ''-'' # nat_to_string (nat (- i)) else nat_to_string (nat i))"

subsection \<open>Constants\<close>

definition CHUNK_BEGIN :: u32 where "CHUNK_BEGIN = 0xAAAAAAAA"
definition CHUNK_SEPARATOR :: u32 where "CHUNK_SEPARATOR = 0xBBBBBBBB"
definition CHUNK_END :: u32 where "CHUNK_END = 0xCCCCCCCC"
definition ARRAY_BEGIN :: u32 where "ARRAY_BEGIN = 0xDDDDDDDD"
definition ARRAY_END :: u32 where "ARRAY_END = 0xEEEEEEEE"

definition WRAPPER :: u32 where "WRAPPER = 0x00"
definition DATABASE_TABLES :: u32 where "DATABASE_TABLES = 0x01"
definition DATABASE_FLAGS :: u32 where "DATABASE_FLAGS = 0x02"
definition TABLE :: u32 where "TABLE = 0x10"
definition ROW_COUNT :: u32 where "ROW_COUNT = 0x11"
definition COLUMN_DEFINITIONS :: u32 where "COLUMN_DEFINITIONS = 0x12"
definition TABLE_ID :: u32 where "TABLE_ID = 0x15"
definition TABLE_FLAGS :: u32 where "TABLE_FLAGS = 0x16"
definition COLUMN :: u32 where "COLUMN = 0x20"
definition COLUMN_DATA_TYPE :: u32 where "COLUMN_DATA_TYPE = 0x21"
definition COLUMN_VALUES :: u32 where "COLUMN_VALUES = 0x22"
definition COLUMN_BLOB_DATA :: u32 where "COLUMN_BLOB_DATA = 0x23"
definition COLUMN_INDEX :: u32 where "COLUMN_INDEX = 0x24"

lemmas chunk_type_defs =
  WRAPPER_def DATABASE_TABLES_def DATABASE_FLAGS_def TABLE_def ROW_COUNT_def
  COLUMN_DEFINITIONS_def TABLE_ID_def TABLE_FLAGS_def COLUMN_def COLUMN_DATA_TYPE_def
  COLUMN_VALUES_def COLUMN_BLOB_DATA_def COLUMN_INDEX_def

text \<open>The \<open>DATA_TYPE\<close> object of the converter has exactly these five members.\<close>

definition INTEGER :: u32 where "INTEGER = 0"
definition FLOAT :: u32 where "FLOAT = 1"
definition STRING :: u32 where "STRING = 2"
definition FLOAT_LIST :: u32 where "FLOAT_LIST = 10"
definition INTEGER_LIST :: u32 where "INTEGER_LIST = 11"

lemmas data_type_defs = INTEGER_def FLOAT_def STRING_def FLOAT_LIST_def INTEGER_LIST_def

subsection \<open>Numbers read as IEEE-754 singles\<close>

text \<open>
  \<open>DataView.getFloat32\<close> reinterprets a 32-bit word as a single-precision number. Every
  such number is exactly a double; a finite one is kept as sign, mantissa and binary
  exponent: \<open>JFin s m e\<close> is \<open>(-1)^s * m * 2^e\<close>.
\<close>

datatype jsnum = JNaN | JInf bool | JFin bool nat int

definition getFloat32 :: "u32 \<Rightarrow> jsnum" where
  "getFloat32 w =
     (let s = bit w 31; e = unat (drop_bit 23 w AND 0xFF); m = unat (w AND 0x7FFFFF) in
      if e = 255 then (if m = 0 then JInf s else JNaN)
      else if e = 0 then JFin s m (- 149)
      else JFin s (2 ^ 23 + m) (int e - 150))"

text \<open>
  \<open>Number.prototype.toFixed(6)\<close> (ECMA-262): a number that is not finite prints as
  \<open>NaN\<close>, \<open>Infinity\<close> or \<open>-Infinity\<close>; a negative number prints \<open>-\<close> and its
  magnitude; a magnitude of \<open>10^21\<close> or more prints as \<open>Number::toString\<close> does;
  otherwise the integer \<open>n\<close> nearest to \<open>x * 10^6\<close> (the larger of two) prints with
  a point before its last six digits. \<open>Number::toString\<close> of a large double (the
  shortest digits that read back as the same double) is a function of the JavaScript
  engine and is a parameter of the model.
\<close>

definition scaled6 :: "nat \<Rightarrow> int \<Rightarrow> nat" where
  "scaled6 m e =
     (if 0 \<le> e then m * 2 ^ nat e * 10 ^ 6
      else (2 * m * 10 ^ 6 + 2 ^ nat (- e)) div (2 ^ (nat (- e) + 1)))"

definition atLeast1e21 :: "nat \<Rightarrow> int \<Rightarrow> bool" where
  "atLeast1e21 m e = (if 0 \<le> e then 10 ^ 21 \<le> m * 2 ^ nat e else 10 ^ 21 * 2 ^ nat (- e) \<le> m)"

definition fixedDigits :: "nat \<Rightarrow> string" where
  "fixedDigits n =
     (let m = nat_to_string n;
          m' = (if length m \<le> 6 then replicate (7 - length m) CHR ''0'' @ m else m);
          k = length m'
      in take (k - 6) m' @ [CHR ''.''] @ drop (k - 6) m')"

definition toFixed6 :: "(jsnum \<Rightarrow> string) \<Rightarrow> jsnum \<Rightarrow> string" where
  "toFixed6 numberToString x =
     (case x of
        JNaN \<Rightarrow> ''NaN''
      | JInf s \<Rightarrow> (if s then ''-Infinity'' else ''Infinity'')
      | JFin s m e \<Rightarrow>
          (if s \<and> m \<noteq> 0 then [CHR ''-''] else []) @
          (if atLeast1e21 m e then numberToString (JFin False m e)
           else fixedDigits (scaled6 m e)))"

text \<open>
  \<open>.replace(/(\.\d*?)0+$/, '$1')\<close>: at the leftmost point that is followed only by
  digits up to the end of the string, the last of them a zero, the trailing zeros are
  dropped (the lazy group takes as few digits as it can).
  \<open>.replace(/\.$/, '')\<close>: a point that ends the string is dropped.
\<close>

definition is_digit :: "char \<Rightarrow> bool" where
  "is_digit c = (c \<in> set ''0123456789'')"

fun replaceTrailingZeros :: "string \<Rightarrow> string" where
  "replaceTrailingZeros [] = []"
| "replaceTrailingZeros (c # cs) =
     (if c = CHR ''.'' \<and> cs \<noteq> [] \<and> list_all is_digit cs \<and> last cs = CHR ''0''
      then c # rev (dropWhile (\<lambda>d. d = CHR ''0'') (rev cs))
      else c # replaceTrailingZeros cs)"

definition replaceFinalPoint :: "string \<Rightarrow> string" where
  "replaceFinalPoint s = (if s \<noteq> [] \<and> last s = CHR ''.'' then butlast s else s)"

text \<open>The value reader that \<open>convertColumnData\<close> passes for \<open>FLOAT_LIST\<close>.\<close>

definition formatFloat :: "(jsnum \<Rightarrow> string) \<Rightarrow> jsnum \<Rightarrow> nat \<Rightarrow> string" where
  "formatFloat numberToString v count =
     (let formatted = replaceFinalPoint (replaceTrailingZeros (toFixed6 numberToString v))
      in if CHR ''.'' \<notin> set formatted \<and> count > 1 then formatted @ ''.0'' else formatted)"

subsection \<open>Values of the decoded file\<close>

text \<open>
  A cell of a decoded column or of a table of the database: \<open>value | 0\<close> gives a
  signed integer, \<open>getFloat32\<close> a number, strings and formatted lists are text; the
  database has \<open>NULL\<close> as well.
\<close>

datatype cell = CNull | CInt int | CNum jsnum | CText string

text \<open>
  The \<open>value\<close> of a chunk object, as \<open>readChunk\<close> builds it; a container chunk has
  no \<open>value\<close> property, and a key that is missing from \<open>children\<close> reads as
  \<open>undefined\<close> too.
\<close>

datatype cvalue =
    VUndefined
  | VWord u32
  | VWords "u32 list"
  | VBytes bytes
  | VColumns "(string option \<times> cvalue \<times> cell list \<times> cvalue) list"
  | VTables "(string option \<times> cvalue \<times> cvalue \<times> cvalue \<times> cvalue) list"

text \<open>
  A column object is \<open>{name, type, data, columnIndex}\<close> and a table object is
  \<open>{name, rowCount, columns, tableId, tableFlags}\<close>, in this order of components.
\<close>

type_synonym column = "string option \<times> cvalue \<times> cell list \<times> cvalue"
type_synonym table = "string option \<times> cvalue \<times> cvalue \<times> cvalue \<times> cvalue"

definition col_name :: "column \<Rightarrow> string option" where "col_name c = fst c"
definition col_type :: "column \<Rightarrow> cvalue" where "col_type c = fst (snd c)"
definition col_data :: "column \<Rightarrow> cell list" where "col_data c = fst (snd (snd c))"
definition col_columnIndex :: "column \<Rightarrow> cvalue" where "col_columnIndex c = snd (snd (snd c))"

definition tab_name :: "table \<Rightarrow> string option" where "tab_name t = fst t"
definition tab_rowCount :: "table \<Rightarrow> cvalue" where "tab_rowCount t = fst (snd t)"
definition tab_columns :: "table \<Rightarrow> cvalue" where "tab_columns t = fst (snd (snd t))"
definition tab_tableId :: "table \<Rightarrow> cvalue" where "tab_tableId t = fst (snd (snd (snd t)))"
definition tab_tableFlags :: "table \<Rightarrow> cvalue" where "tab_tableFlags t = snd (snd (snd (snd t)))"

record header =
  chunkSize :: u32
  chunkType :: u32
  flags :: u32
  description :: "string option"

type_synonym children = "(u32 \<times> cvalue) list"

datatype chunk =
    ValueChunk u32 cvalue
  | ContainerChunk u32 header children

definition chunk_type :: "chunk \<Rightarrow> u32" where
  "chunk_type c = (case c of ValueChunk t v \<Rightarrow> t | ContainerChunk t h cs \<Rightarrow> t)"

definition chunk_value :: "chunk \<Rightarrow> cvalue" where
  "chunk_value c = (case c of ValueChunk t v \<Rightarrow> v | ContainerChunk t h cs \<Rightarrow> VUndefined)"

text \<open>\<open>children[key]\<close>.\<close>

definition child :: "children \<Rightarrow> u32 \<Rightarrow> cvalue" where
  "child cs k = (case map_of cs k of None \<Rightarrow> VUndefined | Some v \<Rightarrow> v)"

subsection \<open>Errors\<close>

text \<open>
  The three errors that the reader throws itself, the two errors of \<open>cdbToSQLite\<close>
  and \<open>sqliteToCDB\<close>, the errors that the JavaScript runtime throws under them
  (\<open>TypeError\<close> for a property of \<open>undefined\<close>, \<open>RangeError\<close> for a typed-array
  length or a \<open>DataView\<close> offset out of bounds), and the errors of the SQL engine and of
  the inflater. \<open>OutOfFuel\<close> is not an error of the program: it is the value of a
  recursive reader whose recursion bound was too small.
\<close>

datatype error =
    ReadPastEnd nat
  | UnknownChunkType u32
  | UnknownDataType cvalue
  | NullTableId "string option"
  | NoDBStructure
  | TypeError
  | RangeError
  | SqlError
  | InflateError
  | OutOfFuel

definition bindE :: "error + 'a \<Rightarrow> ('a \<Rightarrow> error + 'b) \<Rightarrow> error + 'b" where
  "bindE m f = (case m of Inl e \<Rightarrow> Inl e | Inr x \<Rightarrow> f x)"

subsection \<open>\<open>CDBReader\<close>\<close>

text \<open>
  The reader's state is the cursor \<open>pos\<close> over the immutable input \<open>data\<close>. Every
  method takes the cursor and returns its result with the new cursor.
\<close>

definition read32 :: "bytes \<Rightarrow> nat \<Rightarrow> error + (u32 \<times> nat)" where
  "read32 d pos =
     (if pos + 4 > length d then Inl (ReadPastEnd pos) else Inr (get32 d pos, pos + 4))"

text \<open>
  \<open>readBytes(length)\<close>: the length can be negative (a description length of zero, a
  chunk size that ends before the cursor); then the bounds check passes and the
  \<open>Uint8Array\<close> constructor throws a \<open>RangeError\<close>.
\<close>

definition readBytes :: "bytes \<Rightarrow> nat \<Rightarrow> int \<Rightarrow> error + (bytes \<times> nat)" where
  "readBytes d pos len =
     (if int pos + len > int (length d) then Inl (ReadPastEnd pos)
      else if len < 0 then Inl RangeError
      else Inr (take (nat len) (drop pos d), pos + nat len))"

definition padding :: "nat \<Rightarrow> nat" where
  "padding pos = (4 - (pos AND 3)) AND 3"

definition readPadding :: "nat \<Rightarrow> nat" where
  "readPadding pos = pos + padding pos"

definition readChunkHeader :: "bytes \<Rightarrow> nat \<Rightarrow> error + (header \<times> nat)" where
  "readChunkHeader d pos =
     bindE (read32 d pos) (\<lambda>(magic, p1).
     bindE (read32 d p1) (\<lambda>(chunkSize, p2).
     bindE (read32 d p2) (\<lambda>(chunkType, p3).
     bindE (read32 d p3) (\<lambda>(flags, p4).
     bindE (read32 d p4) (\<lambda>(hasDescription, p5).
     bindE (if hasDescription \<noteq> 0
            then bindE (read32 d p5) (\<lambda>(descLength, p6).
                 bindE (readBytes d p6 (uint descLength - 1)) (\<lambda>(descBytes, p7).
                 Inr (Some (decodeText descBytes), p7 + 1)))
            else Inr (None, p5)) (\<lambda>(description, p8).
     bindE (read32 d (readPadding p8)) (\<lambda>(separator, p9).
     Inr (\<lparr>chunkSize = chunkSize, chunkType = chunkType, flags = flags,
           description = description\<rparr>, p9))))))))"

text \<open>
  The loop of the \<open>COLUMN_VALUES\<close> case:
  \<open>for (let i = 0; i < dataBytes / 4; i++) values.push(this.read32())\<close>.
\<close>

fun readWords :: "bytes \<Rightarrow> nat \<Rightarrow> nat \<Rightarrow> error + (u32 list \<times> nat)" where
  "readWords d 0 pos = Inr ([], pos)"
| "readWords d (Suc k) pos =
     bindE (read32 d pos) (\<lambda>(v, p1).
     bindE (readWords d k p1) (\<lambda>(vs, p2). Inr (v # vs, p2)))"

definition wordCount :: "int \<Rightarrow> nat" where
  "wordCount dataBytes = nat ((dataBytes + 3) div 4)"

text \<open>
  \<open>readArray(itemReader)\<close>: the begin marker, the count, that many items, the end
  marker; none of the two markers is compared with anything.
\<close>

fun readItems :: "(nat \<Rightarrow> error + ('a \<times> nat)) \<Rightarrow> nat \<Rightarrow> nat \<Rightarrow> error + ('a list \<times> nat)" where
  "readItems itemReader 0 pos = Inr ([], pos)"
| "readItems itemReader (Suc k) pos =
     bindE (itemReader pos) (\<lambda>(x, p1).
     bindE (readItems itemReader k p1) (\<lambda>(xs, p2). Inr (x # xs, p2)))"

definition readArray ::
  "bytes \<Rightarrow> (nat \<Rightarrow> error + ('a \<times> nat)) \<Rightarrow> nat \<Rightarrow> error + ('a list \<times> nat)" where
  "readArray d itemReader pos =
     bindE (read32 d pos) (\<lambda>(arrayBegin, p1).
     bindE (read32 d p1) (\<lambda>(count, p2).
     bindE (readItems itemReader (unat count) p2) (\<lambda>(items, p3).
     bindE (read32 d p3) (\<lambda>(arrayEnd, p4).
     Inr (items, p4)))))"

text \<open>
  \<open>parseStrings\<close>: \<open>subarray\<close> clamps its bounds, so a length that runs over the blob
  gives a shorter string and no error.
\<close>

fun parseStrings :: "bytes \<Rightarrow> nat \<Rightarrow> u32 list \<Rightarrow> cell list" where
  "parseStrings sizedData currentOffset [] = []"
| "parseStrings sizedData currentOffset (stringLength # lengths) =
     CText (decodeText (take (unat stringLength - 1) (drop currentOffset sizedData)))
       # parseStrings sizedData (currentOffset + unat stringLength) lengths"

text \<open>
  \<open>parseNumericLists\<close>: \<open>Array.from({length: count}, ...)\<close> reads \<open>count\<close> values,
  each with \<open>view.getUint32\<close> or \<open>view.getFloat32\<close>, which throw a \<open>RangeError\<close>
  outside the blob.
\<close>

fun readListValues ::
  "(u32 \<Rightarrow> nat \<Rightarrow> string) \<Rightarrow> bytes \<Rightarrow> nat \<Rightarrow> nat \<Rightarrow> nat \<Rightarrow> error + (string list \<times> nat)" where
  "readListValues readValue sizedData count 0 currentOffset = Inr ([], currentOffset)"
| "readListValues readValue sizedData count (Suc k) currentOffset =
     (if currentOffset + 4 > length sizedData then Inl RangeError
      else bindE (readListValues readValue sizedData count k (currentOffset + 4)) (\<lambda>(vs, off).
           Inr (readValue (get32 sizedData currentOffset) count # vs, off)))"

fun join :: "string \<Rightarrow> string list \<Rightarrow> string" where
  "join sep [] = []"
| "join sep [x] = x"
| "join sep (x # y # ys) = x @ sep @ join sep (y # ys)"

fun parseNumericLists ::
  "(u32 \<Rightarrow> nat \<Rightarrow> string) \<Rightarrow> bytes \<Rightarrow> nat \<Rightarrow> u32 list \<Rightarrow> error + cell list" where
  "parseNumericLists readValue sizedData currentOffset [] = Inr []"
| "parseNumericLists readValue sizedData currentOffset (count # counts) =
     bindE (readListValues readValue sizedData (unat count) (unat count) currentOffset) (\<lambda>(values, off).
     bindE (parseNumericLists readValue sizedData off counts) (\<lambda>rest.
     Inr (CText (''('' @ join '','' values @ '')'') # rest)))"

text \<open>
  \<open>convertColumnData(columnChunk)\<close>, on the \<open>children\<close> of the column chunk. The
  \<open>switch\<close> compares the data type with the five members of \<open>DATA_TYPE\<close>; a column
  without a \<open>COLUMN_VALUES\<close> child has \<open>rawData\<close> undefined, and \<open>rawData.map\<close>
  (or \<open>lengths.map\<close>, \<open>counts.map\<close>) throws a \<open>TypeError\<close>.
\<close>

definition convertColumnData :: "(jsnum \<Rightarrow> string) \<Rightarrow> children \<Rightarrow> error + cell list" where
  "convertColumnData numberToString cs =
     (let dataType = child cs COLUMN_DATA_TYPE;
          rawData = child cs COLUMN_VALUES;
          sizedData = (case child cs COLUMN_BLOB_DATA of VBytes b \<Rightarrow> b | _ \<Rightarrow> [0, 0, 0, 0])
      in if dataType = VWord INTEGER then
           (case rawData of VWords ws \<Rightarrow> Inr (map (\<lambda>v. CInt (sint v)) ws) | _ \<Rightarrow> Inl TypeError)
         else if dataType = VWord FLOAT then
           (case rawData of VWords ws \<Rightarrow> Inr (map (\<lambda>v. CNum (getFloat32 v)) ws) | _ \<Rightarrow> Inl TypeError)
         else if dataType = VWord STRING then
           (case rawData of VWords ws \<Rightarrow> Inr (parseStrings sizedData 4 ws) | _ \<Rightarrow> Inl TypeError)
         else if dataType = VWord INTEGER_LIST then
           (case rawData of
              VWords ws \<Rightarrow> parseNumericLists (\<lambda>w count. int_to_string (sint w)) sizedData 4 ws
            | _ \<Rightarrow> Inl TypeError)
         else if dataType = VWord FLOAT_LIST then
           (case rawData of
              VWords ws \<Rightarrow>
                parseNumericLists (\<lambda>w count. formatFloat numberToString (getFloat32 w) count)
                  sizedData 4 ws
            | _ \<Rightarrow> Inl TypeError)
         else Inl (UnknownDataType dataType))"

text \<open>
  \<open>readChunk\<close> and the loop of its container case. The recursion of the source is
  bounded here by a counter that every call of \<open>readChunk\<close> and every turn of the loop
  decrements. After the \<open>switch\<close> come \<open>this.readPadding(); this.read32();\<close>. The item readers of the two arrays take the fields of a table or a column
  from the chunk that they read; a chunk that is not a container has no \<open>header\<close>, and
  reading its \<open>description\<close> throws a \<open>TypeError\<close>.
\<close>

definition tableItem :: "chunk \<Rightarrow> error + table" where
  "tableItem tableChunk =
     (case tableChunk of
        ValueChunk t v \<Rightarrow> Inl TypeError
      | ContainerChunk t h cs \<Rightarrow>
          Inr (description h, child cs ROW_COUNT, child cs COLUMN_DEFINITIONS,
               child cs TABLE_ID, child cs TABLE_FLAGS))"

definition columnItem :: "(jsnum \<Rightarrow> string) \<Rightarrow> chunk \<Rightarrow> error + column" where
  "columnItem numberToString columnChunk =
     (case columnChunk of
        ValueChunk t v \<Rightarrow> Inl TypeError
      | ContainerChunk t h cs \<Rightarrow>
          bindE (convertColumnData numberToString cs) (\<lambda>data.
          Inr (description h, child cs COLUMN_DATA_TYPE, data, child cs COLUMN_INDEX)))"

definition isValueType :: "u32 \<Rightarrow> bool" where
  "isValueType t = (t = ROW_COUNT \<or> t = TABLE_ID \<or> t = TABLE_FLAGS \<or> t = DATABASE_FLAGS
                    \<or> t = COLUMN_INDEX \<or> t = COLUMN_DATA_TYPE)"

definition isContainerType :: "u32 \<Rightarrow> bool" where
  "isContainerType t = (t = WRAPPER \<or> t = TABLE \<or> t = COLUMN)"

fun readChunk :: "(jsnum \<Rightarrow> string) \<Rightarrow> nat \<Rightarrow> bytes \<Rightarrow> nat \<Rightarrow> error + (chunk \<times> nat)"
and readChildren ::
  "(jsnum \<Rightarrow> string) \<Rightarrow> nat \<Rightarrow> bytes \<Rightarrow> nat \<Rightarrow> children \<Rightarrow> nat \<Rightarrow> error + (children \<times> nat)"
where
  "readChunk nts 0 d chunkStartPos = Inl OutOfFuel"
| "readChunk nts (Suc n) d chunkStartPos =
     bindE (readChunkHeader d chunkStartPos) (\<lambda>(header, pos).
     let chunkEndPos = chunkStartPos + unat (chunkSize header); t = chunkType header in
     bindE
       (if isValueType t then
          bindE (read32 d pos) (\<lambda>(v, p). Inr (ValueChunk t (VWord v), p))
        else if t = COLUMN_VALUES then
          bindE (readWords d (wordCount (int chunkEndPos - int pos - 4)) pos) (\<lambda>(values, p).
          Inr (ValueChunk t (VWords values), p))
        else if t = COLUMN_BLOB_DATA then
          bindE (readBytes d pos (int chunkEndPos - int pos - 4)) (\<lambda>(bs, p).
          Inr (ValueChunk t (VBytes bs), p))
        else if t = DATABASE_TABLES then
          bindE (readArray d (\<lambda>p. bindE (readChunk nts n d p) (\<lambda>(tableChunk, p').
                                    bindE (tableItem tableChunk) (\<lambda>item. Inr (item, p')))) pos)
            (\<lambda>(tables, p). Inr (ValueChunk t (VTables tables), p))
        else if t = COLUMN_DEFINITIONS then
          bindE (readArray d (\<lambda>p. bindE (readChunk nts n d p) (\<lambda>(columnChunk, p').
                                    bindE (columnItem nts columnChunk) (\<lambda>item. Inr (item, p')))) pos)
            (\<lambda>(columns, p). Inr (ValueChunk t (VColumns columns), p))
        else if isContainerType t then
          bindE (readChildren nts n d chunkEndPos [] pos) (\<lambda>(children, p).
          Inr (ContainerChunk t header children, p))
        else Inl (UnknownChunkType t))
       (\<lambda>(result, p).
     bindE (read32 d (readPadding p)) (\<lambda>(endMagic, p').
     Inr (result, p'))))"
| "readChildren nts 0 d chunkEndPos children pos = Inl OutOfFuel"
| "readChildren nts (Suc n) d chunkEndPos children pos =
     (if pos < chunkEndPos then
        (if int chunkEndPos - int pos < 20 then Inr (children, pos)
         else bindE (readChunk nts n d pos) (\<lambda>(chunk, p).
              readChildren nts n d chunkEndPos
                (AList.update (chunk_type chunk) (chunk_value chunk) children) p))
      else Inr (children, pos))"

text \<open>
  For the properties of the reader: two inputs of one length that have the same bytes
  at the offsets from \<open>a\<close> up to, and without, \<open>b\<close>.
\<close>

definition sameBytes :: "bytes \<Rightarrow> bytes \<Rightarrow> nat \<Rightarrow> nat \<Rightarrow> bool" where
  "sameBytes d d' a b =
     (length d' = length d \<and> take (b - a) (drop a d') = take (b - a) (drop a d))"

subsection \<open>\<open>CDBWriter\<close>\<close>

text \<open>
  The writer's state: the backing \<open>buffer\<close> (its length is the capacity), the cursor
  (\<open>this.pos\<close>, here \<open>wpos\<close>), the stack of open chunks (top first) and the list of
  closed chunks in the order of closing. An open chunk is \<open>{type, startPos}\<close>, a
  closed one has its \<open>size\<close> too.
\<close>

record writer =
  buffer :: bytes
  wpos :: nat
  chunkStack :: "(u32 \<times> nat) list"
  closedChunks :: "(u32 \<times> nat \<times> nat) list"

definition newWriter :: "nat \<Rightarrow> writer" where
  "newWriter estimatedSize =
     \<lparr>buffer = replicate estimatedSize 0, wpos = 0, chunkStack = [], closedChunks = []\<rparr>"

text \<open>\<open>Math.max(Math.ceil(this.buffer.length * 1.5), this.pos + additionalBytes)\<close>.\<close>

definition ensureCapacity :: "nat \<Rightarrow> writer \<Rightarrow> writer" where
  "ensureCapacity additionalBytes w =
     (if wpos w + additionalBytes > length (buffer w)
      then let newSize = max ((3 * length (buffer w) + 1) div 2) (wpos w + additionalBytes)
           in w\<lparr>buffer := buffer w @ replicate (newSize - length (buffer w)) 0\<rparr>
      else w)"

text \<open>\<open>buffer.set(bytes, p)\<close> and \<open>view.setUint32(p, v, true)\<close> inside the capacity.\<close>

definition setBytes :: "bytes \<Rightarrow> nat \<Rightarrow> bytes \<Rightarrow> bytes" where
  "setBytes buf p bs = take p buf @ bs @ drop (p + length bs) buf"

definition write32 :: "u32 \<Rightarrow> writer \<Rightarrow> writer" where
  "write32 v w =
     (let w1 = ensureCapacity 4 w
      in w1\<lparr>buffer := setBytes (buffer w1) (wpos w1) (le32 v), wpos := wpos w1 + 4\<rparr>)"

definition writeBytes :: "bytes \<Rightarrow> writer \<Rightarrow> writer" where
  "writeBytes bs w =
     (let w1 = ensureCapacity (length bs) w
      in w1\<lparr>buffer := setBytes (buffer w1) (wpos w1) bs, wpos := wpos w1 + length bs\<rparr>)"

definition writePadding :: "writer \<Rightarrow> writer" where
  "writePadding w =
     (let pad = padding (wpos w)
      in if pad > 0 then (let w1 = ensureCapacity pad w in w1\<lparr>wpos := wpos w1 + pad\<rparr>)
         else w)"

text \<open>
  \<open>writeChunkOpen(chunkType, description = null)\<close>; \<open>description ? 1 : 0\<close> is 0 for
  \<open>null\<close> and for the empty string.
\<close>

definition truthy :: "string option \<Rightarrow> bool" where
  "truthy descr = (descr \<noteq> None \<and> descr \<noteq> Some [])"

definition writeChunkOpen :: "u32 \<Rightarrow> string option \<Rightarrow> writer \<Rightarrow> writer" where
  "writeChunkOpen t descr w =
     (let chunkStart = wpos w;
          w1 = write32 CHUNK_BEGIN w;
          w2 = write32 0 w1;
          w3 = write32 t w2;
          w4 = write32 0 w3;
          w5 = write32 (if truthy descr then 1 else 0) w4;
          w6 = (if truthy descr
                then let descBytes = encodeText (the descr);
                         a = write32 (of_nat (length descBytes + 1)) w5;
                         b = writeBytes descBytes a;
                         c = ensureCapacity 1 b
                     in c\<lparr>buffer := (buffer c)[wpos c := 0], wpos := wpos c + 1\<rparr>
                else w5);
          w7 = writePadding w6;
          w8 = write32 CHUNK_SEPARATOR w7
      in w8\<lparr>chunkStack := (t, chunkStart) # chunkStack w8\<rparr>)"

text \<open>
  \<open>writeChunkClose()\<close>: with no open chunk, \<open>pop()\<close> gives \<open>undefined\<close> and the
  assignment to \<open>chunk.size\<close> throws a \<open>TypeError\<close>.
\<close>

definition writeChunkClose :: "writer \<Rightarrow> error + writer" where
  "writeChunkClose w =
     (case chunkStack w of
        [] \<Rightarrow> Inl TypeError
      | (t, startPos) # rest \<Rightarrow>
          (let w1 = write32 CHUNK_END (writePadding (w\<lparr>chunkStack := rest\<rparr>))
           in Inr (w1\<lparr>closedChunks := closedChunks w1 @ [(t, startPos, wpos w1 - startPos)]\<rparr>)))"

text \<open>
  \<open>getData()\<close>: every closed chunk's size is written into its header slot, then the
  written part of the buffer is returned.
\<close>

definition patchSize :: "bytes \<Rightarrow> (u32 \<times> nat \<times> nat) \<Rightarrow> bytes" where
  "patchSize buf chunk =
     (case chunk of (t, startPos, sz) \<Rightarrow> setBytes buf (startPos + 4) (le32 (of_nat sz)))"

definition getData :: "writer \<Rightarrow> bytes" where
  "getData w = take (wpos w) (foldl patchSize (buffer w) (closedChunks w))"

text \<open>
  A run of the writer: its five public operations, applied in order. The first error
  ends the run.
\<close>

datatype wop =
    Write32 u32
  | WriteBytes bytes
  | WritePadding
  | ChunkOpen u32 "string option"
  | ChunkClose

fun step :: "wop \<Rightarrow> writer \<Rightarrow> error + writer" where
  "step (Write32 v) w = Inr (write32 v w)"
| "step (WriteBytes bs) w = Inr (writeBytes bs w)"
| "step WritePadding w = Inr (writePadding w)"
| "step (ChunkOpen t descr) w = Inr (writeChunkOpen t descr w)"
| "step ChunkClose w = writeChunkClose w"

fun run :: "wop list \<Rightarrow> writer \<Rightarrow> error + writer" where
  "run [] w = Inr w"
| "run (x # xs) w = bindE (step x w) (run xs)"

text \<open>
  Two notions for the properties of the writer. The part of the buffer that has been
  written is the part before the cursor. A writer is well formed when the cursor is
  inside the capacity and the buffer is zero from the cursor on (a fresh \<open>Uint8Array\<close>
  is zero, and \<open>writePadding\<close> moves the cursor over bytes that it does not write).
\<close>

definition written :: "writer \<Rightarrow> bytes" where
  "written w = take (wpos w) (buffer w)"

definition wfw :: "writer \<Rightarrow> bool" where
  "wfw w = (wpos w \<le> length (buffer w) \<and> list_all (\<lambda>b. b = 0) (drop (wpos w) (buffer w)))"

text \<open>
  The bytes that \<open>writeChunkOpen\<close> writes at the cursor \<open>p\<close> (the size is still zero),
  and the invariant of a closed chunk \<open>(type, startPos, size)\<close> in the bytes \<open>out\<close>
  written so far: the chunk lies inside \<open>out\<close>, it begins with the begin-magic and its
  last word is the end-magic.
\<close>

definition headerBytes :: "u32 \<Rightarrow> string option \<Rightarrow> nat \<Rightarrow> bytes" where
  "headerBytes t descr p =
     le32 CHUNK_BEGIN @ le32 0 @ le32 t @ le32 0 @
     (if truthy descr
      then le32 1 @ le32 (of_nat (length (encodeText (the descr)) + 1)) @ encodeText (the descr) @ [0] @
           replicate (padding (p + 24 + length (encodeText (the descr)) + 1)) 0
      else le32 0 @ replicate (padding (p + 20)) 0) @
     le32 CHUNK_SEPARATOR"

definition closedOK :: "bytes \<Rightarrow> u32 \<times> nat \<times> nat \<Rightarrow> bool" where
  "closedOK out c =
     (case c of (t, s, z) \<Rightarrow>
        28 \<le> z \<and> s + z \<le> length out \<and> get32 out s = CHUNK_BEGIN \<and> get32 out (s + z - 4) = CHUNK_END)"

text \<open>
  The invariant of a run of the writer. The start offsets of all chunks, open and closed,
  are distinct and at least 24 bytes apart; each lies at least 24 bytes before the cursor
  and holds the begin-magic; each closed chunk is as above, and every start offset lies
  either at least 28 bytes before the chunk's end or not before that end.
\<close>

definition starts :: "writer \<Rightarrow> nat list" where
  "starts w = map snd (chunkStack w) @ map (\<lambda>c. fst (snd c)) (closedChunks w)"

definition chunkInv :: "writer \<Rightarrow> bool" where
  "chunkInv w =
     (wfw w \<and> distinct (starts w) \<and>
      list_all (\<lambda>s. s + 24 \<le> wpos w \<and> get32 (written w) s = CHUNK_BEGIN \<and>
                    list_all (\<lambda>s'. s = s' \<or> s + 24 \<le> s' \<or> s' + 24 \<le> s) (starts w)) (starts w) \<and>
      list_all (\<lambda>c. closedOK (written w) c \<and>
                    list_all (\<lambda>s'. s' + 28 \<le> fst (snd c) + snd (snd c) \<or> fst (snd c) + snd (snd c) \<le> s')
                      (starts w)) (closedChunks w))"

definition isChunkOpen :: "wop \<Rightarrow> bool" where
  "isChunkOpen x = (case x of ChunkOpen t descr \<Rightarrow> True | _ \<Rightarrow> False)"

subsection \<open>The relational database\<close>

text \<open>
  The SQL engine is a library; the model keeps what the converter's statements observe
  of it: the tables in the order of creation, each with its name, its columns (name and
  declared type, in the order of declaration) and its rows in the order of insertion. A
  bound value is stored as it is. Names are compared as the engine compares identifiers,
  without regard to the case of ASCII letters; the statement texts are built by
  interpolation, and names are taken to be free of quote characters.
\<close>

record sqltable =
  tableName :: string
  tableColumns :: "(string \<times> string) list"
  tableRows :: "cell list list"

type_synonym database = "sqltable list"

definition lower :: "char \<Rightarrow> char" where
  "lower c = (case map_of (zip ''ABCDEFGHIJKLMNOPQRSTUVWXYZ'' ''abcdefghijklmnopqrstuvwxyz'') c of
                None \<Rightarrow> c | Some l \<Rightarrow> l)"

definition sameName :: "string \<Rightarrow> string \<Rightarrow> bool" where
  "sameName a b = (map lower a = map lower b)"

definition findTable :: "database \<Rightarrow> string \<Rightarrow> sqltable option" where
  "findTable db name = find (\<lambda>t. sameName (tableName t) name) db"

text \<open>\<open>CREATE TABLE\<close>: an error for a name in use, for no column, for a column twice.\<close>

definition createTable :: "string \<Rightarrow> (string \<times> string) list \<Rightarrow> database \<Rightarrow> error + database" where
  "createTable name cols db =
     (if findTable db name = None \<and> cols \<noteq> [] \<and> distinct (map (\<lambda>c. map lower (fst c)) cols)
      then Inr (db @ [\<lparr>tableName = name, tableColumns = cols, tableRows = []\<rparr>])
      else Inl SqlError)"

text \<open>
  \<open>INSERT INTO name VALUES (...), (...)\<close> with bound parameters: an error for a table
  that does not exist, for no row at all, for a row of another width than the table, and
  for a parameter that is \<open>undefined\<close> (here \<open>None\<close>).
\<close>

fun insertInto :: "string \<Rightarrow> cell list list \<Rightarrow> database \<Rightarrow> database" where
  "insertInto name rows [] = []"
| "insertInto name rows (t # ts) =
     (if sameName (tableName t) name then t\<lparr>tableRows := tableRows t @ rows\<rparr> # ts
      else t # insertInto name rows ts)"

definition insertRows :: "string \<Rightarrow> cell option list list \<Rightarrow> database \<Rightarrow> error + database" where
  "insertRows name params db =
     (case findTable db name of
        None \<Rightarrow> Inl SqlError
      | Some t \<Rightarrow>
          (if params \<noteq> [] \<and>
              list_all (\<lambda>row. list_all (\<lambda>v. v \<noteq> None) row \<and> length row = length (tableColumns t)) params
           then Inr (insertInto name (map (map the) params) db)
           else Inl SqlError))"

text \<open>
  \<open>db.exec\<close> returns no result object at all for a statement that yields no row; the
  three queries of \<open>sqliteToCDB\<close> follow. \<open>ORDER BY ID\<close> sorts the rows by the
  identifier, \<open>NULL\<close> before the numbers and the numbers before the texts; the model
  orders integers by value and leaves other rows of one class in their stored order.
\<close>

definition columnIndexOf :: "sqltable \<Rightarrow> string \<Rightarrow> nat option" where
  "columnIndexOf t name =
     (case filter (\<lambda>i. sameName (fst (tableColumns t ! i)) name) [0..<length (tableColumns t)] of
        [] \<Rightarrow> None | i # _ \<Rightarrow> Some i)"

definition idKey :: "cell \<Rightarrow> int \<times> int" where
  "idKey v = (case v of CNull \<Rightarrow> (0, 0) | CInt i \<Rightarrow> (1, i) | CNum x \<Rightarrow> (1, 0) | CText s \<Rightarrow> (2, 0))"

definition lexKey :: "int \<times> int \<Rightarrow> int \<times> int \<Rightarrow> bool" where
  "lexKey a b = (fst a < fst b \<or> (fst a = fst b \<and> snd a \<le> snd b))"

fun insortRow :: "(cell \<times> cell) \<Rightarrow> (cell \<times> cell) list \<Rightarrow> (cell \<times> cell) list" where
  "insortRow r [] = [r]"
| "insortRow r (x # xs) =
     (if lexKey (idKey (snd r)) (idKey (snd x)) then r # x # xs else x # insortRow r xs)"

definition orderById :: "(cell \<times> cell) list \<Rightarrow> (cell \<times> cell) list" where
  "orderById rows = foldr insortRow rows []"

definition selectStructure :: "database \<Rightarrow> error + (cell \<times> cell) list" where
  "selectStructure db =
     (case findTable db ''DB_STRUCTURE'' of
        None \<Rightarrow> Inl SqlError
      | Some t \<Rightarrow>
          (case (columnIndexOf t ''TableName'', columnIndexOf t ''ID'') of
             (Some i, Some j) \<Rightarrow> Inr (orderById (map (\<lambda>row. (row ! i, row ! j)) (tableRows t)))
           | _ \<Rightarrow> Inl SqlError))"

text \<open>
  \<open>PRAGMA table_info(name)\<close>: the columns' names and declared types, in the order of
  declaration (no row for a table that does not exist); \<open>SELECT * FROM name\<close>.
\<close>

definition tableInfo :: "database \<Rightarrow> string \<Rightarrow> (string \<times> string) list" where
  "tableInfo db name = (case findTable db name of None \<Rightarrow> [] | Some t \<Rightarrow> tableColumns t)"

definition selectAll :: "database \<Rightarrow> string \<Rightarrow> error + cell list list" where
  "selectAll db name = (case findTable db name of None \<Rightarrow> Inl SqlError | Some t \<Rightarrow> Inr (tableRows t))"

subsection \<open>The JavaScript engine and the libraries\<close>

text \<open>
  Functions of the JavaScript engine and of the two libraries (pako, SQL.js) that the
  converter calls and that are not modelled further; they are parameters of the model.
  \<^item> \<open>inflate\<close>, \<open>deflate\<close>: \<open>pako.inflate\<close> (which can fail) and \<open>pako.deflate\<close>;
  \<^item> \<open>numberToString\<close>: \<open>Number::toString\<close> of a number that is not an integer cell;
  \<^item> \<open>numberToUint32\<close>, \<open>textToUint32\<close>: what \<open>setUint32\<close> stores for such a number and
    for a text (ToNumber, then ToUint32);
  \<^item> \<open>numberToFloat32\<close>, \<open>textToFloat32\<close>: the bits of the single that \<open>setFloat32\<close>
    stores for \<open>parseFloat\<close> of a number and of a text;
  \<^item> \<open>textToInt32\<close>: \<open>parseInt(text) | 0\<close>, as a word;
  \<^item> \<open>trim\<close>: \<open>String.prototype.trim\<close>;
  \<^item> \<open>exportSize\<close>: \<open>db.export().length\<close>.
\<close>

record host =
  inflate :: "bytes \<Rightarrow> bytes option"
  deflate :: "bytes \<Rightarrow> bytes"
  numberToString :: "jsnum \<Rightarrow> string"
  numberToUint32 :: "jsnum \<Rightarrow> u32"
  textToUint32 :: "string \<Rightarrow> u32"
  numberToFloat32 :: "jsnum \<Rightarrow> u32"
  textToFloat32 :: "string \<Rightarrow> u32"
  textToInt32 :: "string \<Rightarrow> u32"
  trim :: "string \<Rightarrow> string"
  exportSize :: "database \<Rightarrow> nat"

text \<open>Conversions of a cell where the code passes it to a typed operation.\<close>

definition cellToString :: "host \<Rightarrow> cell \<Rightarrow> string" where
  "cellToString H v =
     (case v of CNull \<Rightarrow> ''null'' | CInt i \<Rightarrow> int_to_string i
      | CNum x \<Rightarrow> numberToString H x | CText s \<Rightarrow> s)"

definition cellToUint32 :: "host \<Rightarrow> cell \<Rightarrow> u32" where
  "cellToUint32 H v =
     (case v of CNull \<Rightarrow> 0 | CInt i \<Rightarrow> word_of_int i
      | CNum x \<Rightarrow> numberToUint32 H x | CText s \<Rightarrow> textToUint32 H s)"

text \<open>
  \<open>parseFloat(value)\<close> converts its argument to a string first; \<open>parseFloat(null)\<close> is
  \<open>NaN\<close>, which \<open>setFloat32\<close> stores as the quiet NaN \<open>0x7FC00000\<close>.
\<close>

definition cellToFloat32 :: "host \<Rightarrow> cell \<Rightarrow> u32" where
  "cellToFloat32 H v =
     (case v of CNull \<Rightarrow> 0x7FC00000 | CInt i \<Rightarrow> textToFloat32 H (int_to_string i)
      | CNum x \<Rightarrow> numberToFloat32 H x | CText s \<Rightarrow> textToFloat32 H s)"

text \<open>
  A cell as the \<open>description\<close> of a chunk: \<open>null\<close>, the empty string, zero and NaN are
  falsy, and then the chunk gets no description.
\<close>

definition cellDescription :: "host \<Rightarrow> cell \<Rightarrow> string option" where
  "cellDescription H v =
     (case v of
        CNull \<Rightarrow> None
      | CInt i \<Rightarrow> (if i = 0 then None else Some (int_to_string i))
      | CNum x \<Rightarrow> (case x of JNaN \<Rightarrow> None | JInf s \<Rightarrow> Some (numberToString H x)
                   | JFin s m e \<Rightarrow> (if m = 0 then None else Some (numberToString H x)))
      | CText s \<Rightarrow> Some s)"

subsection \<open>Column data of the writer\<close>

text \<open>A chain of writer operations stops at the first error.\<close>

fun writeAll :: "('a \<Rightarrow> writer \<Rightarrow> writer) \<Rightarrow> 'a list \<Rightarrow> writer \<Rightarrow> writer" where
  "writeAll f [] w = w"
| "writeAll f (x # xs) w = writeAll f xs (f x w)"

text \<open>
  \<open>writeStringData(values)\<close>: the lengths go to the open \<open>COLUMN_VALUES\<close> chunk; with
  any string data, that chunk is closed and a \<open>COLUMN_BLOB_DATA\<close> chunk is opened (the
  caller closes it).
\<close>

definition writeStringData :: "host \<Rightarrow> cell list \<Rightarrow> writer \<Rightarrow> error + writer" where
  "writeStringData H values w =
     (let encoded = map (\<lambda>v. encodeText (cellToString H v)) values;
          stringData = concat (map (\<lambda>e. e @ [0]) encoded);
          lengths = map (\<lambda>e. length e + 1) encoded;
          w1 = writeAll (\<lambda>len. write32 (of_nat len)) lengths w
      in if length stringData > 0
         then bindE (writeChunkClose w1) (\<lambda>w2.
              Inr (writeBytes stringData
                    (write32 (of_nat (length stringData))
                      (writeChunkOpen COLUMN_BLOB_DATA None w2))))
         else Inr w1)"

text \<open>
  \<open>writeListData(dataType, values)\<close>: \<open>String(value).slice(1, -1)\<close> drops the first and
  the last character; an empty content counts zero elements, any other content one more
  than it has commas.
\<close>

definition slice1 :: "string \<Rightarrow> string" where
  "slice1 s = butlast (tl s)"

fun split :: "char \<Rightarrow> string \<Rightarrow> string list" where
  "split sep [] = [[]]"
| "split sep (c # cs) =
     (if c = sep then [] # split sep cs
      else (case split sep cs of [] \<Rightarrow> [[c]] | x # xs \<Rightarrow> (c # x) # xs))"

definition listElements :: "host \<Rightarrow> cell \<Rightarrow> string list" where
  "listElements H v =
     (let content = slice1 (cellToString H v)
      in if content = [] then [] else map (trim H) (split CHR '','' content))"

definition writeListData :: "host \<Rightarrow> int \<Rightarrow> cell list \<Rightarrow> writer \<Rightarrow> error + writer" where
  "writeListData H dataType values w =
     (let elements = map (listElements H) values;
          counts = map length elements;
          listData = map (\<lambda>elem. if dataType = uint FLOAT_LIST then textToFloat32 H elem
                                   else textToInt32 H elem) (concat elements);
          w1 = writeAll (\<lambda>count. write32 (of_nat count)) counts w
      in if length listData > 0
         then bindE (writeChunkClose w1) (\<lambda>w2.
              Inr (writeAll write32 listData
                    (write32 (of_nat (length listData * 4))
                      (writeChunkOpen COLUMN_BLOB_DATA None w2))))
         else Inr w1)"

text \<open>
  \<open>writeColumnData(dataType, values)\<close>: the \<open>switch\<close> has the five members of
  \<open>DATA_TYPE\<close> and no default; any other data type writes an empty values chunk.
\<close>

definition writeColumnData :: "host \<Rightarrow> int \<Rightarrow> cell list \<Rightarrow> writer \<Rightarrow> error + writer" where
  "writeColumnData H dataType values w =
     (let w1 = writeChunkOpen COLUMN_VALUES None w
      in bindE
           (if dataType = uint INTEGER then Inr (writeAll (\<lambda>v. write32 (cellToUint32 H v)) values w1)
            else if dataType = uint FLOAT then Inr (writeAll (\<lambda>v. write32 (cellToFloat32 H v)) values w1)
            else if dataType = uint STRING then writeStringData H values w1
            else if dataType = uint INTEGER_LIST \<or> dataType = uint FLOAT_LIST
              then writeListData H dataType values w1
            else Inr w1)
           writeChunkClose)"

subsection \<open>\<open>cdbToSQLite\<close>\<close>

text \<open>
  \<open>decompressCDB\<close>: \<open>getUint32\<close> and the \<open>Uint8Array\<close> constructor throw a
  \<open>RangeError\<close> on an input that is too short.
\<close>

definition decompressCDB :: "host \<Rightarrow> bytes \<Rightarrow> error + bytes" where
  "decompressCDB H arrayBuffer =
     (if length arrayBuffer < 4 then Inl RangeError
      else if get32 arrayBuffer 0 \<noteq> 0xFFFFFFFF then Inr arrayBuffer
      else if length arrayBuffer < 12 then Inl RangeError
      else let compressedSize = unat (get32 arrayBuffer 8)
           in if 12 + compressedSize > length arrayBuffer then Inl RangeError
              else (case inflate H (take compressedSize (drop 12 arrayBuffer)) of
                      None \<Rightarrow> Inl InflateError
                    | Some r \<Rightarrow> Inr r))"

definition baseType :: "cvalue \<Rightarrow> string" where
  "baseType t =
     (if t = VWord FLOAT then ''REAL''
      else if t = VWord STRING \<or> t = VWord INTEGER_LIST \<or> t = VWord FLOAT_LIST then ''TEXT''
      else ''INTEGER'')"

text \<open>
  The packed integer as the template literal prints it; with the identifier or the
  column index undefined the arithmetic gives \<open>NaN\<close>. A name that is \<open>null\<close> prints
  as \<open>null\<close>.
\<close>

definition encodedText :: "cvalue \<Rightarrow> cvalue \<Rightarrow> cvalue \<Rightarrow> string" where
  "encodedText tableId columnIndex t =
     (case (tableId, columnIndex) of
        (VWord i, VWord c) \<Rightarrow>
          int_to_string (encodedValue (uint i) (uint c) (case t of VWord ty \<Rightarrow> uint ty | _ \<Rightarrow> 0))
      | _ \<Rightarrow> ''NaN'')"

definition nameText :: "string option \<Rightarrow> string" where
  "nameText name = (case name of None \<Rightarrow> ''null'' | Some s \<Rightarrow> s)"

definition columnDef :: "cvalue \<Rightarrow> column \<Rightarrow> string \<times> string" where
  "columnDef tableId col =
     (nameText (col_name col),
      baseType (col_type col) @ '' '' @ encodedText tableId (col_columnIndex col) (col_type col))"

text \<open>Binding a parameter: a string or \<open>null\<close>, a number; \<open>undefined\<close> is refused.\<close>

definition bindName :: "string option \<Rightarrow> cell option" where
  "bindName name = (case name of None \<Rightarrow> Some CNull | Some s \<Rightarrow> Some (CText s))"

definition bindNumber :: "cvalue \<Rightarrow> cell option" where
  "bindNumber v = (case v of VWord w \<Rightarrow> Some (CInt (uint w)) | _ \<Rightarrow> None)"

definition cellAt :: "cell list \<Rightarrow> nat \<Rightarrow> cell option" where
  "cellAt xs i = (if i < length xs then Some (xs ! i) else None)"

text \<open>
  The batches of rows: \<open>for (let i = 0; i < table.rowCount; i += maxRowsPerBatch)\<close>. With
  more than 999 columns \<open>maxRowsPerBatch\<close> is zero and the first statement has no row,
  which the engine refuses.
\<close>

function insertBatches ::
  "string \<Rightarrow> column list \<Rightarrow> nat \<Rightarrow> nat \<Rightarrow> nat \<Rightarrow> database \<Rightarrow> error + database" where
  "insertBatches name cols rowCount maxRowsPerBatch i db =
     (if i < rowCount then
        (if maxRowsPerBatch = 0 then Inl SqlError
         else bindE (insertRows name
                       (map (\<lambda>rowIdx. map (\<lambda>col. cellAt (col_data col) rowIdx) cols)
                            [i..<min (i + maxRowsPerBatch) rowCount]) db)
                (\<lambda>db'. insertBatches name cols rowCount maxRowsPerBatch (i + maxRowsPerBatch) db'))
      else Inr db)"
  by pat_completeness auto
termination
  by (relation "measure (\<lambda>(name, cols, rowCount, maxRowsPerBatch, i, db). rowCount - i)") auto

declare insertBatches.simps [simp del]

text \<open>
  The body of \<open>tables.forEach\<close>. The test \<open>table.tableId === null\<close> never holds: the
  identifier is a number or \<open>undefined\<close>.
\<close>

definition addTable :: "table \<Rightarrow> database \<Rightarrow> error + database" where
  "addTable table db =
     bindE (insertRows ''DB_STRUCTURE'' [[bindName (tab_name table), bindNumber (tab_tableId table)]] db)
       (\<lambda>db1.
     case tab_columns table of
       VColumns cols \<Rightarrow>
         bindE (createTable (nameText (tab_name table)) (map (columnDef (tab_tableId table)) cols) db1)
           (\<lambda>db2.
         case tab_rowCount table of
           VWord rowCount \<Rightarrow>
             (if unat rowCount > 0
              then insertBatches (nameText (tab_name table)) cols (unat rowCount)
                     (999 div length cols) 0 db2
              else Inr db2)
         | _ \<Rightarrow> Inr db2)
     | _ \<Rightarrow> Inl TypeError)"

fun forEachE :: "('a \<Rightarrow> 's \<Rightarrow> error + 's) \<Rightarrow> 'a list \<Rightarrow> 's \<Rightarrow> error + 's" where
  "forEachE f [] s = Inr s"
| "forEachE f (x # xs) s = bindE (f x s) (forEachE f xs)"

definition STRUCTURE_COLUMNS :: "(string \<times> string) list" where
  "STRUCTURE_COLUMNS = [(''TableName'', ''TEXT '' @ [CHR 0x27] @ ''274'' @ [CHR 0x27]), (''ID'', ''INTEGER'')]"

text \<open>
  \<open>buildDatabase\<close> is the part of \<open>cdbToSQLite\<close> after the reader: it creates
  \<open>DB_STRUCTURE\<close> and adds the tables; \<open>tables.forEach\<close> throws a \<open>TypeError\<close> when
  the wrapper has no \<open>DATABASE_TABLES\<close> child.
\<close>

definition buildDatabase :: "cvalue \<Rightarrow> error + database" where
  "buildDatabase tables =
     bindE (createTable ''DB_STRUCTURE'' STRUCTURE_COLUMNS []) (\<lambda>db.
     case tables of VTables ts \<Rightarrow> forEachE addTable ts db | _ \<Rightarrow> Inl TypeError)"

text \<open>
  The reader gets one unit of its recursion bound for every byte of the input and one
  more.
\<close>

definition cdbToSQLite :: "host \<Rightarrow> bytes \<Rightarrow> error + database" where
  "cdbToSQLite H cdbData =
     bindE (decompressCDB H cdbData) (\<lambda>decompressedData.
     bindE (readChunk (numberToString H) (length decompressedData + 1) decompressedData 0)
       (\<lambda>(wrapperChunk, p).
     case wrapperChunk of
       ValueChunk t v \<Rightarrow> Inl TypeError
     | ContainerChunk t h cs \<Rightarrow> buildDatabase (child cs DATABASE_TABLES)))"

subsection \<open>\<open>sqliteToCDB\<close>\<close>

text \<open>
  \<open>TABLE_FLAGS_BY_ID\<close>: the keys of a JavaScript object are strings, and
  \<open>TABLE_FLAGS_BY_ID[id]\<close> looks the identifier up by its string.
\<close>

definition TABLE_FLAGS_BY_ID :: "(string \<times> u32) list" where
  "TABLE_FLAGS_BY_ID =
    [(''3'', 65), (''4'', 50), (''8'', 129), (''9'', 241), (''10'', 209), (''11'', 241),
     (''12'', 241), (''14'', 129), (''16'', 65), (''17'', 97), (''18'', 49), (''19'', 49),
     (''22'', 225), (''23'', 161), (''24'', 65), (''25'', 188), (''26'', 113), (''27'', 33),
     (''28'', 51), (''29'', 33), (''30'', 129), (''31'', 177), (''35'', 129), (''36'', 241),
     (''39'', 49), (''40'', 241), (''41'', 81), (''44'', 241), (''45'', 113), (''50'', 33),
     (''51'', 76), (''52'', 97), (''53'', 81), (''54'', 33), (''55'', 81), (''59'', 241),
     (''65'', 227), (''80'', 33), (''81'', 19), (''83'', 19), (''84'', 19), (''85'', 35),
     (''86'', 33), (''87'', 241), (''92'', 113), (''93'', 35), (''94'', 82), (''98'', 49),
     (''99'', 35), (''100'', 65), (''101'', 83), (''107'', 163), (''108'', 241), (''109'', 75),
     (''110'', 49), (''111'', 81), (''113'', 49), (''117'', 35), (''118'', 129), (''119'', 33),
     (''122'', 241), (''124'', 65), (''125'', 60), (''126'', 19), (''127'', 19), (''128'', 65),
     (''129'', 81), (''131'', 241), (''132'', 44), (''134'', 241), (''135'', 51),
     (''136'', 99), (''137'', 227), (''142'', 195), (''143'', 145), (''144'', 113),
     (''145'', 33), (''146'', 35), (''147'', 49), (''149'', 19), (''152'', 241), (''153'', 49),
     (''155'', 33), (''159'', 33), (''164'', 243), (''166'', 241), (''168'', 161),
     (''170'', 146), (''172'', 241), (''173'', 33), (''175'', 241), (''177'', 130),
     (''179'', 113), (''180'', 145), (''181'', 97), (''185'', 82), (''186'', 193),
     (''192'', 65), (''193'', 242), (''200'', 50), (''202'', 98), (''203'', 33), (''204'', 65),
     (''205'', 49), (''206'', 92), (''207'', 145), (''208'', 65), (''209'', 33), (''210'', 49),
     (''211'', 34), (''213'', 17), (''215'', 177), (''217'', 81), (''218'', 156),
     (''220'', 241), (''221'', 145), (''223'', 65), (''224'', 97), (''225'', 65),
     (''228'', 241), (''229'', 161), (''230'', 49), (''231'', 33), (''236'', 33),
     (''240'', 241), (''241'', 65), (''242'', 19), (''244'', 178), (''245'', 241),
     (''246'', 33), (''249'', 115), (''250'', 193), (''251'', 83), (''252'', 193),
     (''253'', 49), (''254'', 92), (''255'', 83), (''256'', 19), (''257'', 81), (''258'', 97),
     (''259'', 33), (''263'', 65), (''264'', 129), (''265'', 33), (''266'', 129),
     (''268'', 33), (''270'', 19), (''273'', 65), (''274'', 129)]"

text \<open>\<open>view.setUint32(pos, TABLE_FLAGS_BY_ID[id], true)\<close>: \<open>undefined\<close> is stored as 0.\<close>

definition tableFlagsWord :: "host \<Rightarrow> cell \<Rightarrow> u32" where
  "tableFlagsWord H tid =
     (case map_of TABLE_FLAGS_BY_ID (cellToString H tid) of None \<Rightarrow> 0 | Some v \<Rightarrow> v)"

text \<open>
  \<open>colType.match(/\s+(\d+)/)\<close>: the digits after the leftmost run of white space that
  a digit follows (\<open>null\<close> without one); \<open>parseInt\<close> of the digits.
\<close>

definition is_space :: "char \<Rightarrow> bool" where
  "is_space c = (c \<in> set [CHR '' '', CHR 0x09, CHR 0x0A, CHR 0x0B, CHR 0x0C, CHR 0x0D])"

fun matchEncoded :: "string \<Rightarrow> string option" where
  "matchEncoded [] = None"
| "matchEncoded (c # cs) =
     (if is_space c \<and> takeWhile is_digit (dropWhile is_space cs) \<noteq> []
      then Some (takeWhile is_digit (dropWhile is_space cs))
      else matchEncoded cs)"

definition digit_value :: "char \<Rightarrow> nat" where
  "digit_value c = of_char c - 48"

definition parseDigits :: "string \<Rightarrow> nat" where
  "parseDigits s = foldl (\<lambda>a c. 10 * a + digit_value c) 0 s"

text \<open>
  The object \<open>columnInfo\<close>: the assignments keep the order of insertion, but
  \<open>Object.keys\<close> lists the keys that are array indices (canonical decimal numbers below
  \<open>2^32 - 1\<close>) first, in ascending numeric order, and the other keys after them in the
  order of insertion. An assignment to the key \<open>__proto__\<close> sets the prototype and
  creates no property.
\<close>

type_synonym colinfo = "string \<times> int \<times> int"

definition objSet :: "string \<Rightarrow> 'a \<Rightarrow> (string \<times> 'a) list \<Rightarrow> (string \<times> 'a) list" where
  "objSet k v obj = (if k = ''__proto__'' then obj else AList.update k v obj)"

definition isArrayIndex :: "string \<Rightarrow> bool" where
  "isArrayIndex k =
     (k \<noteq> [] \<and> list_all is_digit k \<and> (k = ''0'' \<or> hd k \<noteq> CHR ''0'') \<and> parseDigits k < 2 ^ 32 - 1)"

fun insortIndex :: "string \<Rightarrow> string list \<Rightarrow> string list" where
  "insortIndex k [] = [k]"
| "insortIndex k (x # xs) = (if parseDigits k \<le> parseDigits x then k # x # xs else x # insortIndex k xs)"

definition objectKeys :: "(string \<times> 'a) list \<Rightarrow> string list" where
  "objectKeys obj =
     foldr insortIndex (filter isArrayIndex (map fst obj)) [] @
     filter (\<lambda>k. \<not> isArrayIndex k) (map fst obj)"

definition columnInfoEntry :: "string \<Rightarrow> error + colinfo" where
  "columnInfoEntry colType =
     (case matchEncoded colType of
        None \<Rightarrow> Inl TypeError
      | Some digits \<Rightarrow>
          (let encodedValue = int (parseDigits digits)
           in Inr (hd (split CHR '' '' colType), cdbDataType encodedValue, cdbColumnIndex encodedValue)))"

fun columnInfoOf :: "(string \<times> string) list \<Rightarrow> (string \<times> colinfo) list \<Rightarrow> error + (string \<times> colinfo) list" where
  "columnInfoOf [] columnInfo = Inr columnInfo"
| "columnInfoOf ((colName, colType) # schema) columnInfo =
     bindE (columnInfoEntry colType) (\<lambda>info. columnInfoOf schema (objSet colName info columnInfo))"

text \<open>
  The transposition \<open>rows.forEach(row => row.forEach((value, colIdx) =>
  columnData[colIdx].push(value)))\<close>: a row that is wider than \<open>columnNames\<close> throws a
  \<open>TypeError\<close>.
\<close>

definition transposeRows :: "nat \<Rightarrow> cell list list \<Rightarrow> error + cell list list" where
  "transposeRows n rows =
     (if list_all (\<lambda>row. length row \<le> n) rows
      then Inr (map (\<lambda>colIdx. map (\<lambda>row. row ! colIdx) (filter (\<lambda>row. colIdx < length row) rows)) [0..<n])
      else Inl TypeError)"

text \<open>The body of \<open>columnNames.forEach\<close>.\<close>

definition writeColumn ::
  "host \<Rightarrow> (string \<times> colinfo) list \<Rightarrow> cell list list \<Rightarrow> string \<times> nat \<Rightarrow> writer \<Rightarrow> error + writer" where
  "writeColumn H columnInfo columnData entry w =
     (case entry of (columnName, colIdx) \<Rightarrow>
      case map_of columnInfo columnName of
        None \<Rightarrow> Inl TypeError
      | Some (sqliteType, dataType, columnIndex) \<Rightarrow>
          bindE (writeChunkClose (write32 (word_of_int columnIndex)
                   (writeChunkOpen COLUMN_INDEX None
                     (writeChunkOpen COLUMN (Some columnName) w)))) (\<lambda>w1.
          bindE (writeChunkClose (write32 (word_of_int dataType)
                   (writeChunkOpen COLUMN_DATA_TYPE (Some columnName) w1))) (\<lambda>w2.
          bindE (writeColumnData H dataType (columnData ! colIdx) w2) writeChunkClose)))"

text \<open>The body of \<open>tables.forEach\<close>; a table is a row \<open>(name, id)\<close> of \<open>DB_STRUCTURE\<close>.\<close>

definition columnNamesOf :: "database \<Rightarrow> string \<Rightarrow> error + string list" where
  "columnNamesOf db name = bindE (columnInfoOf (tableInfo db name) []) (\<lambda>columnInfo. Inr (objectKeys columnInfo))"

definition writeTable :: "host \<Rightarrow> database \<Rightarrow> cell \<times> cell \<Rightarrow> writer \<Rightarrow> error + writer" where
  "writeTable H db tableRow w =
     (case tableRow of (name, tid) \<Rightarrow>
      if tableInfo db (cellToString H name) = [] then Inl TypeError
      else
        bindE (columnInfoOf (tableInfo db (cellToString H name)) []) (\<lambda>columnInfo.
        bindE (selectAll db (cellToString H name)) (\<lambda>rows.
        bindE (writeChunkClose (write32 (cellToUint32 H tid)
                 (writeChunkOpen TABLE_ID None
                   (writeChunkOpen TABLE (cellDescription H name) w)))) (\<lambda>w1.
        bindE (writeChunkClose (write32 (of_nat (length rows))
                 (writeChunkOpen ROW_COUNT None w1))) (\<lambda>w2.
        bindE (writeChunkClose (write32 (tableFlagsWord H tid)
                 (writeChunkOpen TABLE_FLAGS None w2))) (\<lambda>w3.
        let columnNames = objectKeys columnInfo;
            w4 = write32 (of_nat (length columnNames))
                   (write32 ARRAY_BEGIN (writeChunkOpen COLUMN_DEFINITIONS None w3))
        in
        bindE (transposeRows (length columnNames) rows) (\<lambda>columnData.
        bindE (forEachE (writeColumn H columnInfo columnData)
                 (zip columnNames [0..<length columnNames]) w4) (\<lambda>w5.
        bindE (writeChunkClose (write32 ARRAY_END w5)) writeChunkClose))))))))"

definition compressCDB :: "host \<Rightarrow> bytes \<Rightarrow> bytes" where
  "compressCDB H uncompressedData =
     (let compressed = deflate H uncompressedData
      in le32 0xFFFFFFFF @ le32 (of_nat (length uncompressedData)) @ le32 (of_nat (length compressed))
         @ compressed)"

text \<open>
  \<open>encodeTables\<close> is \<open>sqliteToCDB\<close> up to \<open>writer.getData()\<close>, the chunk stream before
  compression.
\<close>

definition encodeTables :: "host \<Rightarrow> database \<Rightarrow> error + bytes" where
  "encodeTables H db =
     bindE (selectStructure db) (\<lambda>tables.
     if tables = [] then Inl NoDBStructure
     else
       bindE (writeChunkClose (write32 274
                (writeChunkOpen DATABASE_FLAGS None
                  (writeChunkOpen WRAPPER (Some ''cyanide database'')
                    (newWriter (exportSize H db)))))) (\<lambda>w1.
       bindE (forEachE (writeTable H db) tables
                (write32 (of_nat (length tables))
                  (write32 ARRAY_BEGIN (writeChunkOpen DATABASE_TABLES None w1)))) (\<lambda>w2.
       bindE (writeChunkClose (write32 ARRAY_END w2)) (\<lambda>w3.
       bindE (writeChunkClose w3) (\<lambda>w4.
       Inr (getData w4))))))"

definition sqliteToCDB :: "host \<Rightarrow> database \<Rightarrow> error + bytes" where
  "sqliteToCDB H db = bindE (encodeTables H db) (\<lambda>data. Inr (compressCDB H data))"

subsection \<open>Notions for the properties of the reader\<close>

text \<open>
  A reader is local when a successful read moves the cursor forward and depends on the
  bytes between the old and the new cursor only.
\<close>

definition localR :: "(bytes \<Rightarrow> nat \<Rightarrow> error + ('a \<times> nat)) \<Rightarrow> bool" where
  "localR f = (\<forall>d d' p r p'. f d p = Inr (r, p') \<longrightarrow>
     p \<le> p' \<and> (sameBytes d d' p p' \<longrightarrow> f d' p = Inr (r, p')))"

text \<open>
  The part of \<open>readChunkHeader\<close> between its two sentinel words, and the header that
  it builds from these fields.
\<close>

definition headerFields ::
  "bytes \<Rightarrow> nat \<Rightarrow> error + ((u32 \<times> u32 \<times> u32 \<times> string option) \<times> nat)" where
  "headerFields d p1 =
     bindE (read32 d p1) (\<lambda>(chunkSize, p2).
     bindE (read32 d p2) (\<lambda>(chunkType, p3).
     bindE (read32 d p3) (\<lambda>(flags, p4).
     bindE (read32 d p4) (\<lambda>(hasDescription, p5).
     bindE (if hasDescription \<noteq> 0
            then bindE (read32 d p5) (\<lambda>(descLength, p6).
                 bindE (readBytes d p6 (uint descLength - 1)) (\<lambda>(descBytes, p7).
                 Inr (Some (decodeText descBytes), p7 + 1)))
            else Inr (None, p5)) (\<lambda>(description, p8).
     Inr ((chunkSize, chunkType, flags, description), p8))))))"

definition mkHeader :: "u32 \<times> u32 \<times> u32 \<times> string option \<Rightarrow> header" where
  "mkHeader f = (case f of (s, t, fl, de) \<Rightarrow>
     \<lparr>chunkSize = s, chunkType = t, flags = fl, description = de\<rparr>)"

subsection \<open>Example inputs\<close>

text \<open>
  A \<open>DATABASE_FLAGS\<close> chunk of 32 bytes with the value 274, once with the three
  sentinel words of the format and once with three other words in their places.
\<close>

definition right_sentinels :: bytes where
  "right_sentinels = le32 CHUNK_BEGIN @ le32 32 @ le32 DATABASE_FLAGS @ le32 0 @ le32 0
     @ le32 CHUNK_SEPARATOR @ le32 274 @ le32 CHUNK_END"

definition wrong_sentinels :: bytes where
  "wrong_sentinels = le32 0x11111111 @ le32 32 @ le32 DATABASE_FLAGS @ le32 0 @ le32 0
     @ le32 0x22222222 @ le32 274 @ le32 0x33333333"

text \<open>
  A \<open>WRAPPER\<close> chunk of declared size 32 without children: after its header come one
  word and the end sentinel. And a \<open>WRAPPER\<close> chunk of declared size 100 with two
  children: a \<open>TABLE\<close> chunk of declared size 40, which holds three zero words and its
  end sentinel after its header, and a \<open>DATABASE_FLAGS\<close> chunk.
\<close>

definition short_container :: bytes where
  "short_container = le32 CHUNK_BEGIN @ le32 32 @ le32 WRAPPER @ le32 0 @ le32 0
     @ le32 CHUNK_SEPARATOR @ le32 0x11111111 @ le32 CHUNK_END"

definition trailing_container :: bytes where
  "trailing_container =
     le32 CHUNK_BEGIN @ le32 100 @ le32 WRAPPER @ le32 0 @ le32 0 @ le32 CHUNK_SEPARATOR
     @ le32 CHUNK_BEGIN @ le32 40 @ le32 TABLE @ le32 0 @ le32 0 @ le32 CHUNK_SEPARATOR
       @ le32 0 @ le32 0 @ le32 0 @ le32 CHUNK_END
     @ le32 CHUNK_BEGIN @ le32 32 @ le32 DATABASE_FLAGS @ le32 0 @ le32 0 @ le32 CHUNK_SEPARATOR
       @ le32 274 @ le32 CHUNK_END
     @ le32 CHUNK_END"

(*DEFS*)

section \<open>Properties\<close>

subsection \<open>Helper lemmas on the integer operators\<close>

lemma js_and_15: "js_and x 0xF = x mod 16"
proof -
  have "signed_take_bit 31 x AND 15 = take_bit 4 (signed_take_bit 31 x)"
    using take_bit_eq_mask [of 4 "signed_take_bit 31 x"] by (simp add: mask_eq_exp_minus_1)
  also have "\<dots> = take_bit 4 x"
    by (simp add: take_bit_signed_take_bit)
  finally show ?thesis
    by (simp add: js_and_def ToInt32_def take_bit_eq_mod)
qed

lemma js_and_255: "js_and x 0xFF = x mod 256"
proof -
  have "signed_take_bit 31 x AND 255 = take_bit 8 (signed_take_bit 31 x)"
    using take_bit_eq_mask [of 8 "signed_take_bit 31 x"] by (simp add: mask_eq_exp_minus_1)
  also have "\<dots> = take_bit 8 x"
    by (simp add: take_bit_signed_take_bit)
  finally show ?thesis
    by (simp add: js_and_def ToInt32_def take_bit_eq_mod)
qed

subsection \<open>The metadata codec\<close>

lemma pack_unpack:
  "encodedValue (cdbTableId N) (cdbColumnIndex N) (cdbDataType N) = N"
proof -
  have a: "N div 16 mod 256 = N div 16 - 256 * (N div 4096)"
    by (simp add: minus_mult_div_eq_mod [symmetric] div_mult2_eq)
  have b: "N mod 16 = N - 16 * (N div 16)"
    by (simp add: minus_mult_div_eq_mod)
  show ?thesis
    unfolding encodedValue_def cdbTableId_def cdbColumnIndex_def cdbDataType_def js_and_15 js_and_255
    by (simp add: a b)
qed

lemma unpack_shifts:
  "cdbDataType N = N AND 0xF" "cdbColumnIndex N = drop_bit 4 N AND 0xFF" "cdbTableId N = drop_bit 12 N"
  unfolding cdbTableId_def cdbColumnIndex_def cdbDataType_def js_and_15 js_and_255
  using take_bit_eq_mask [of 4 N] take_bit_eq_mask [of 8 "drop_bit 4 N"]
  by (simp_all add: mask_eq_exp_minus_1 take_bit_eq_mod drop_bit_eq_div)

lemma unpack_pack:
  assumes h: "0 \<le> t" "0 \<le> c" "c < 256" "0 \<le> d" "d < 16"
  shows "unpack (encodedValue t c d) = (t, c, d)"
proof -
  define n where "n = (t * 256 + c) * 16 + d"
  have m: "n mod 16 = d"
    unfolding n_def using h by (simp only: mod_mult_self3 mod_pos_pos_trivial)
  have "n div 16 = (t * 256 + c) + d div 16"
    unfolding n_def by (rule div_mult_self3) simp
  then have q: "n div 16 = t * 256 + c"
    using h by (simp only: div_pos_pos_trivial add_0_right)
  have qm: "n div 16 mod 256 = c"
    unfolding q using h by (simp only: mod_mult_self3 mod_pos_pos_trivial)
  have "n div 16 div 256 = t + c div 256"
    unfolding q by (rule div_mult_self3) simp
  then have "n div 16 div 256 = t"
    using h by (simp only: div_pos_pos_trivial add_0_right)
  moreover have "n div 4096 = n div 16 div 256" by (simp add: div_mult2_eq)
  ultimately have tq: "n div 4096 = t" by simp
  have e: "encodedValue t c d = n"
    using h by (simp add: encodedValue_def js_and_15 n_def)
  show ?thesis
    unfolding e unpack_def cdbTableId_def cdbColumnIndex_def cdbDataType_def js_and_15 js_and_255
    using m qm tq by simp
qed

text \<open>
  Claim C2. The metadata codec is a bijection on its domain. For every integer \<open>N\<close> in
  \<open>[0, 2^32)\<close> the code's unpacking is the one of the specification
  (\<open>data_type = N & 0xF\<close>, \<open>column_index = (N >> 4) & 0xFF\<close>, \<open>table_id = N >> 12\<close>) and
  packing the unpacked triple gives \<open>N\<close> back; for every triple with a non-negative
  table identifier, a column index below 256 and a data type below 16, unpacking the
  packed integer gives the triple back.
\<close>

theorem metadata_codec_bijection:
  "(0 \<le> N \<and> N < 2 ^ 32 \<longrightarrow>
      cdbDataType N = N AND 0xF \<and> cdbColumnIndex N = drop_bit 4 N AND 0xFF \<and>
      cdbTableId N = drop_bit 12 N \<and>
      encodedValue (cdbTableId N) (cdbColumnIndex N) (cdbDataType N) = N) \<and>
   (0 \<le> t \<and> 0 \<le> c \<and> c < 256 \<and> 0 \<le> d \<and> d < 16 \<longrightarrow>
      unpack (encodedValue t c d) = (t, c, d))"
  using pack_unpack [of N] unpack_shifts [of N] unpack_pack [of t c d] by blast

theorem metadata_codec_bijection_witness:
  "(0 \<le> (12288::int) \<and> (12288::int) < 2 ^ 32) \<and>
   cdbDataType 12288 = 12288 AND 0xF \<and> cdbColumnIndex 12288 = drop_bit 4 12288 AND 0xFF \<and>
   cdbTableId 12288 = drop_bit 12 12288 \<and>
   encodedValue (cdbTableId 12288) (cdbColumnIndex 12288) (cdbDataType 12288) = 12288 \<and>
   unpack (encodedValue 3 0 0) = (3, 0, 0)"
proof -
  have h1: "0 \<le> (12288::int) \<and> (12288::int) < 2 ^ 32" by simp
  have h2: "0 \<le> (3::int) \<and> 0 \<le> (0::int) \<and> (0::int) < 256 \<and> 0 \<le> (0::int) \<and> (0::int) < 16" by simp
  show ?thesis using metadata_codec_bijection [of 12288 3 0 0] h1 h2 by blast
qed

text \<open>
  Claim C9, as stated: the annotation integer 274 of the \<open>DB_STRUCTURE\<close> text column
  decodes under the inversion formulas to table 1, column index 1, data type 2. It does
  not: 274 is \<open>0x112\<close>, so the data type is 2, but the column index is
  \<open>(274 >> 4) & 0xFF = 17\<close> and the table identifier is \<open>274 >> 12 = 0\<close>.
\<close>

theorem sentinel_274_counterexample:
  "unpack 274 \<noteq> (1, 1, 2)"
  by (simp add: unpack_def cdbTableId_def cdbColumnIndex_def cdbDataType_def js_and_15 js_and_255)

text \<open>
  Claim C9, amended: 274 decodes to table identifier 0, column index 17 and data type 2;
  the triple (1, 1, 2) packs to 4114.
\<close>

theorem sentinel_274_decodes:
  "unpack 274 = (0, 17, 2) \<and> encodedValue 1 1 2 = 4114"
  by (simp add: unpack_def cdbTableId_def cdbColumnIndex_def cdbDataType_def encodedValue_def
      js_and_15 js_and_255)

subsection \<open>Data types of the decoder\<close>

lemma convertColumnData_unknown:
  "convertColumnData nts cs = Inl (UnknownDataType v) \<longleftrightarrow>
     child cs COLUMN_DATA_TYPE = v \<and>
     v \<notin> {VWord INTEGER, VWord FLOAT, VWord STRING, VWord INTEGER_LIST, VWord FLOAT_LIST}"
proof -
  have nl: "parseNumericLists f b off ws \<noteq> Inl (UnknownDataType v)" for f b off ws
  proof (induction ws arbitrary: off)
    case Nil
    show ?case by simp
  next
    case (Cons w ws)
    have rl: "readListValues f b c k o' \<noteq> Inl (UnknownDataType v)" for c k o'
      by (induction k arbitrary: o') (auto simp: bindE_def split: sum.splits)
    show ?case
      using Cons rl [of "unat w" "unat w" off]
      by (auto simp: bindE_def split: sum.splits)
  qed
  show ?thesis
    using nl
    by (auto simp: convertColumnData_def Let_def split: cvalue.splits)
qed

text \<open>
  Claim C3 says that the decoder accepts the eight data types 0, 1, 2, 3, 4, 5, 10 and 11
  and raises the unknown-data-type error for the others only. The decoder knows five
  data types: a boolean column (type 3) raises the error, and so do a byte column
  (type 4) and a short column (type 5). The failing input is the boolean column of ten
  rows T, F, T, T, F, F, F, T, T, F, whose values chunk holds the bytes \<open>0x8D 0x01\<close> and
  two bytes of padding.
\<close>

theorem boolean_column_unknown_data_type:
  "convertColumnData nts
     [(COLUMN_INDEX, VWord 0), (COLUMN_DATA_TYPE, VWord 3), (COLUMN_VALUES, VWords [0x0000018D])]
   = Inl (UnknownDataType (VWord 3))
   \<and> convertColumnData nts
     [(COLUMN_INDEX, VWord 0), (COLUMN_DATA_TYPE, VWord 4), (COLUMN_VALUES, VWords [0x000000FF])]
   = Inl (UnknownDataType (VWord 4))
   \<and> convertColumnData nts
     [(COLUMN_INDEX, VWord 0), (COLUMN_DATA_TYPE, VWord 5), (COLUMN_VALUES, VWords [0x0000FFFF])]
   = Inl (UnknownDataType (VWord 5))"
  by (simp add: convertColumnData_def child_def chunk_type_defs data_type_defs)

subsection \<open>Rules for evaluating the model on concrete inputs\<close>

text \<open>
  The two congruence rules make the simplifier evaluate the first argument of a bind or
  of a \<open>let\<close> before it looks at the continuation.
\<close>

lemma bindE_weak_cong: "m = m' \<Longrightarrow> bindE m f = bindE m' f"
  by simp

lemma Let_weak_cong: "a = b \<Longrightarrow> Let a f = Let b f"
  by simp

lemma bindE_Inr: "bindE (Inr x) f = f x"
  by (simp add: bindE_def)

lemma bindE_Inl: "bindE (Inl e) f = Inl e"
  by (simp add: bindE_def)

lemma replicate_numeral_eval: "replicate (numeral k) x = x # replicate (pred_numeral k) x"
  by (simp add: numeral_eq_Suc)

lemmas magic_defs = CHUNK_BEGIN_def CHUNK_SEPARATOR_def CHUNK_END_def ARRAY_BEGIN_def ARRAY_END_def

lemmas bytes_eval = le32_def encodeText_def byte_of_char_def chunk_type_defs magic_defs

lemmas writer_eval =
  write32_def writeBytes_def writePadding_def padding_def ensureCapacity_def setBytes_def
  writeChunkOpen_def writeChunkClose_def truthy_def newWriter_def getData_def patchSize_def Let_def
  bindE_Inr bindE_Inl bytes_eval replicate_numeral_eval

subsection \<open>The writer: what each operation appends\<close>

lemma length_le32 [simp]: "length (le32 v) = 4" by (simp add: le32_def)

lemma wfw_new: "wfw (newWriter n)"
  by (simp add: wfw_def newWriter_def list_all_iff)

lemma written_new: "written (newWriter n) = []"
  by (simp add: written_def newWriter_def)

lemma length_written: "wfw w \<Longrightarrow> length (written w) = wpos w"
  by (simp add: written_def wfw_def)

lemma ensureCapacity_props:
  assumes "wfw w"
  shows "wfw (ensureCapacity n w)" "written (ensureCapacity n w) = written w"
    "wpos (ensureCapacity n w) = wpos w" "wpos w + n \<le> length (buffer (ensureCapacity n w))"
    "chunkStack (ensureCapacity n w) = chunkStack w" "closedChunks (ensureCapacity n w) = closedChunks w"
  using assms
  by (auto simp: ensureCapacity_def wfw_def written_def Let_def list_all_iff max_def)

lemma zeros_take: "list_all (\<lambda>b. b = (0::u8)) xs \<Longrightarrow> n \<le> length xs \<Longrightarrow> take n xs = replicate n 0"
  by (induction xs arbitrary: n) (auto simp: take_Cons split: nat.splits)

lemma zeros_drop: "list_all (\<lambda>b. b = (0::u8)) xs \<Longrightarrow> list_all (\<lambda>b. b = 0) (drop n xs)"
  by (auto simp: list_all_iff dest: in_set_dropD)

lemma setBytes_props:
  assumes "p + length bs \<le> length buf"
  shows "length (setBytes buf p bs) = length buf"
    "take (p + length bs) (setBytes buf p bs) = take p buf @ bs"
    "drop (p + length bs) (setBytes buf p bs) = drop (p + length bs) buf"
proof -
  have l: "length (take p buf) = p" using assms by simp
  show "length (setBytes buf p bs) = length buf"
    using assms by (simp add: setBytes_def)
  have "take (p + length bs) (take p buf @ bs @ drop (p + length bs) buf) = take p buf @ take (length bs) (bs @ drop (p + length bs) buf)"
    using l by (simp add: take_append del: length_take)
  then show "take (p + length bs) (setBytes buf p bs) = take p buf @ bs"
    by (simp add: setBytes_def)
  have "drop (p + length bs) (take p buf @ bs @ drop (p + length bs) buf) = drop (length bs) (bs @ drop (p + length bs) buf)"
    using l by (simp add: drop_append del: length_take)
  then show "drop (p + length bs) (setBytes buf p bs) = drop (p + length bs) buf"
    by (simp add: setBytes_def)
qed

lemma writeBytes_props:
  assumes "wfw w"
  shows "wfw (writeBytes bs w)" "written (writeBytes bs w) = written w @ bs"
    "wpos (writeBytes bs w) = wpos w + length bs"
    "chunkStack (writeBytes bs w) = chunkStack w" "closedChunks (writeBytes bs w) = closedChunks w"
proof -
  let ?w1 = "ensureCapacity (length bs) w"
  note e = ensureCapacity_props [OF assms, of "length bs"]
  have cap: "wpos w + length bs \<le> length (buffer ?w1)" by (rule e(4))
  have z: "list_all (\<lambda>b. b = 0) (drop (wpos w) (buffer ?w1))"
    using e(1) e(3) by (simp add: wfw_def)
  have zz: "list_all (\<lambda>b. b = 0) (drop (wpos w + length bs) (buffer ?w1))"
    using zeros_drop [OF z, of "length bs"] by (simp add: add.commute)
  note s = setBytes_props [OF cap]
  show "wfw (writeBytes bs w)"
    using cap zz s by (simp add: writeBytes_def Let_def wfw_def e(3))
  show "written (writeBytes bs w) = written w @ bs"
    using s(2) e(2) by (simp add: writeBytes_def Let_def written_def e(3))
  show "wpos (writeBytes bs w) = wpos w + length bs"
    by (simp add: writeBytes_def Let_def e(3))
  show "chunkStack (writeBytes bs w) = chunkStack w" "closedChunks (writeBytes bs w) = closedChunks w"
    by (simp_all add: writeBytes_def Let_def e)
qed

lemma write32_writeBytes: "write32 v w = writeBytes (le32 v) w"
  by (simp add: write32_def writeBytes_def)

lemma write32_props:
  assumes "wfw w"
  shows "wfw (write32 v w)" "written (write32 v w) = written w @ le32 v"
    "wpos (write32 v w) = wpos w + 4"
    "chunkStack (write32 v w) = chunkStack w" "closedChunks (write32 v w) = closedChunks w"
  using writeBytes_props [OF assms, of "le32 v"] by (simp_all add: write32_writeBytes)

lemma writePadding_props:
  assumes "wfw w"
  shows "wfw (writePadding w)" "written (writePadding w) = written w @ replicate (padding (wpos w)) 0"
    "wpos (writePadding w) = wpos w + padding (wpos w)"
    "chunkStack (writePadding w) = chunkStack w" "closedChunks (writePadding w) = closedChunks w"
proof -
  let ?n = "padding (wpos w)"
  let ?w1 = "ensureCapacity ?n w"
  note e = ensureCapacity_props [OF assms, of ?n]
  have cap: "wpos w + ?n \<le> length (buffer ?w1)" by (rule e(4))
  have z: "list_all (\<lambda>b. b = 0) (drop (wpos w) (buffer ?w1))"
    using e(1) e(3) by (simp add: wfw_def)
  have zz: "list_all (\<lambda>b. b = 0) (drop (wpos w + ?n) (buffer ?w1))"
    using zeros_drop [OF z, of ?n] by (simp add: add.commute)
  have t: "take (wpos w + ?n) (buffer ?w1) = take (wpos w) (buffer ?w1) @ replicate ?n 0"
    using zeros_take [OF z, of ?n] cap by (simp add: take_add)
  show "wfw (writePadding w)"
    using cap zz assms by (auto simp: writePadding_def Let_def wfw_def e(3))
  show "written (writePadding w) = written w @ replicate ?n 0"
    using t e(2) by (auto simp: writePadding_def Let_def written_def e(3))
  show "wpos (writePadding w) = wpos w + ?n"
    by (auto simp: writePadding_def Let_def e(3))
  show "chunkStack (writePadding w) = chunkStack w" "closedChunks (writePadding w) = closedChunks w"
    by (auto simp: writePadding_def Let_def e)
qed


lemma ensureCapacity_cap: "wpos w + n \<le> length (buffer (ensureCapacity n w))"
  by (auto simp: ensureCapacity_def Let_def max_def)

lemma nul_write:
  "(let c = ensureCapacity 1 b in c\<lparr>buffer := (buffer c)[wpos c := 0], wpos := wpos c + 1\<rparr>)
   = writeBytes [0] b"
proof -
  have "wpos (ensureCapacity 1 b) < length (buffer (ensureCapacity 1 b))"
    using ensureCapacity_cap [of "ensureCapacity 1 b" 0] ensureCapacity_cap [of b 1]
    by (auto simp: ensureCapacity_def Let_def max_def split: if_splits)
  then show ?thesis
    by (simp add: writeBytes_def Let_def setBytes_def upd_conv_take_nth_drop)
qed

lemma writeChunkOpen_alt:
  "writeChunkOpen t d w =
     (write32 CHUNK_SEPARATOR (writePadding
        (if truthy d
         then writeBytes [0] (writeBytes (encodeText (the d))
                (write32 (of_nat (length (encodeText (the d)) + 1))
                  (write32 1 (write32 0 (write32 t (write32 0 (write32 CHUNK_BEGIN w)))))))
         else write32 0 (write32 0 (write32 t (write32 0 (write32 CHUNK_BEGIN w)))))))
     \<lparr>chunkStack := (t, wpos w) #
        chunkStack (write32 CHUNK_SEPARATOR (writePadding
        (if truthy d
         then writeBytes [0] (writeBytes (encodeText (the d))
                (write32 (of_nat (length (encodeText (the d)) + 1))
                  (write32 1 (write32 0 (write32 t (write32 0 (write32 CHUNK_BEGIN w)))))))
         else write32 0 (write32 0 (write32 t (write32 0 (write32 CHUNK_BEGIN w)))))))\<rparr>"
  unfolding writeChunkOpen_def Let_def nul_write [unfolded Let_def] by simp

lemmas wprops = write32_props writeBytes_props writePadding_props

lemma wfw_stack_upd [simp]: "wfw (w\<lparr>chunkStack := x\<rparr>) = wfw w"
  by (simp add: wfw_def)
lemma written_stack_upd [simp]: "written (w\<lparr>chunkStack := x\<rparr>) = written w"
  by (simp add: written_def)
lemma wfw_closed_upd [simp]: "wfw (w\<lparr>closedChunks := x\<rparr>) = wfw w"
  by (simp add: wfw_def)
lemma written_closed_upd [simp]: "written (w\<lparr>closedChunks := x\<rparr>) = written w"
  by (simp add: written_def)

lemma writeChunkOpen_props:
  assumes "wfw w"
  shows "wfw (writeChunkOpen t d w)"
    "written (writeChunkOpen t d w) = written w @ headerBytes t d (wpos w)"
    "wpos (writeChunkOpen t d w) = wpos w + length (headerBytes t d (wpos w))"
    "chunkStack (writeChunkOpen t d w) = (t, wpos w) # chunkStack w"
    "closedChunks (writeChunkOpen t d w) = closedChunks w"
proof -
  define w4 where "w4 = write32 0 (write32 t (write32 0 (write32 CHUNK_BEGIN w)))"
  have w4: "wfw w4" "written w4 = written w @ le32 CHUNK_BEGIN @ le32 0 @ le32 t @ le32 0"
    "wpos w4 = wpos w + 16" "chunkStack w4 = chunkStack w" "closedChunks w4 = closedChunks w"
    using assms by (simp_all add: w4_def wprops)
  define w6 where "w6 = (if truthy d
         then writeBytes [0] (writeBytes (encodeText (the d))
                (write32 (of_nat (length (encodeText (the d)) + 1)) (write32 1 w4)))
         else write32 0 w4)"
  have w6: "wfw w6"
    "written w6 = written w4 @
      (if truthy d then le32 1 @ le32 (of_nat (length (encodeText (the d)) + 1)) @ encodeText (the d) @ [0]
       else le32 0)"
    "wpos w6 = (if truthy d then wpos w + 24 + length (encodeText (the d)) + 1 else wpos w + 20)"
    "chunkStack w6 = chunkStack w" "closedChunks w6 = closedChunks w"
    using w4 by (simp_all add: w6_def wprops)
  define w8 where "w8 = write32 CHUNK_SEPARATOR (writePadding w6)"
  have w8: "wfw w8"
    "written w8 = written w6 @ replicate (padding (wpos w6)) 0 @ le32 CHUNK_SEPARATOR"
    "wpos w8 = wpos w6 + padding (wpos w6) + 4"
    "chunkStack w8 = chunkStack w" "closedChunks w8 = closedChunks w"
    using w6(1,4,5) by (simp_all add: w8_def wprops)
  have eq: "writeChunkOpen t d w = w8\<lparr>chunkStack := (t, wpos w) # chunkStack w8\<rparr>"
    by (simp add: writeChunkOpen_alt w8_def w6_def w4_def)
  show "wfw (writeChunkOpen t d w)" by (simp add: eq w8)
  show wr: "written (writeChunkOpen t d w) = written w @ headerBytes t d (wpos w)"
    by (simp add: eq w8 w6 w4 headerBytes_def)
  show "wpos (writeChunkOpen t d w) = wpos w + length (headerBytes t d (wpos w))"
    by (simp add: eq w8 w6 headerBytes_def)
  show "chunkStack (writeChunkOpen t d w) = (t, wpos w) # chunkStack w"
    by (simp add: eq w8)
  show "closedChunks (writeChunkOpen t d w) = closedChunks w"
    by (simp add: eq w8)
qed

lemma writeChunkClose_props:
  assumes "wfw w" "chunkStack w = (t, s) # rest"
  shows "\<exists>w'. writeChunkClose w = Inr w' \<and> wfw w' \<and>
           written w' = written w @ replicate (padding (wpos w)) 0 @ le32 CHUNK_END \<and>
           wpos w' = wpos w + padding (wpos w) + 4 \<and>
           chunkStack w' = rest \<and>
           closedChunks w' = closedChunks w @ [(t, s, wpos w + padding (wpos w) + 4 - s)]"
proof -
  define w0 where "w0 = w\<lparr>chunkStack := rest\<rparr>"
  have w0: "wfw w0" "written w0 = written w" "wpos w0 = wpos w" "closedChunks w0 = closedChunks w"
    "chunkStack w0 = rest"
    using assms by (simp_all add: w0_def)
  define w1 where "w1 = write32 CHUNK_END (writePadding w0)"
  have w1: "wfw w1" "written w1 = written w @ replicate (padding (wpos w)) 0 @ le32 CHUNK_END"
    "wpos w1 = wpos w + padding (wpos w) + 4" "chunkStack w1 = rest" "closedChunks w1 = closedChunks w"
    using w0 by (simp_all add: w1_def wprops)
  have "writeChunkClose w = Inr (w1\<lparr>closedChunks := closedChunks w1 @ [(t, s, wpos w1 - s)]\<rparr>)"
    using assms(2) by (simp add: writeChunkClose_def w1_def w0_def Let_def)
  then show ?thesis using w1 by simp
qed


lemma word_of_bytes_le32:
  "word_of_bytes (ucast v) (ucast (drop_bit 8 v)) (ucast (drop_bit 16 v)) (ucast (drop_bit 24 v)) = v"
proof (rule bit_word_eqI)
  fix n assume n: "n < LENGTH(32)"
  consider "n < 8" | "8 \<le> n" "n < 16" | "16 \<le> n" "n < 24" | "24 \<le> n" "n < 32"
    using n by fastforce
  then show "bit (word_of_bytes (ucast v) (ucast (drop_bit 8 v)) (ucast (drop_bit 16 v)) (ucast (drop_bit 24 v))) n = bit v n"
    by cases (auto simp add: word_of_bytes_def bit_simps)
qed

lemma get32_append1: "p + 4 \<le> length xs \<Longrightarrow> get32 (xs @ ys) p = get32 xs p"
  by (simp add: get32_def nth_append)

lemma get32_append2: "get32 (xs @ le32 v @ ys) (length xs) = v"
  by (simp add: get32_def nth_append le32_def word_of_bytes_le32)

lemma get32_append3: "length xs = p \<Longrightarrow> get32 (xs @ le32 v @ ys) p = v"
  using get32_append2 by blast

lemma closedOK_append: "closedOK out c \<Longrightarrow> closedOK (out @ ext) c"
  by (cases c) (auto simp: closedOK_def get32_append1)

lemma length_headerBytes: "24 \<le> length (headerBytes t d p)"
  by (simp add: headerBytes_def)

lemma headerBytes_begin: "get32 (xs @ headerBytes t d p) (length xs) = CHUNK_BEGIN"
  unfolding headerBytes_def using get32_append2 [of xs CHUNK_BEGIN] by simp

lemma chunkInv_new: "chunkInv (newWriter n)"
proof -
  have "chunkStack (newWriter n) = []" "closedChunks (newWriter n) = []"
    by (simp_all add: newWriter_def)
  then show ?thesis by (simp add: chunkInv_def wfw_new starts_def)
qed

lemma chunkInv_append:
  assumes "chunkInv w" "wfw w'" "written w' = written w @ ext"
    "chunkStack w' = chunkStack w" "closedChunks w' = closedChunks w"
  shows "chunkInv w'"
proof -
  have wf: "wfw w" using assms(1) by (simp add: chunkInv_def)
  have p: "wpos w \<le> wpos w'"
    using length_written [OF wf] length_written [OF assms(2)] assms(3) by simp
  have st: "starts w' = starts w" by (simp add: starts_def assms)
  have g: "s + 24 \<le> wpos w \<Longrightarrow> get32 (written w') s = get32 (written w) s" for s
    using length_written [OF wf] by (simp add: assms(3) get32_append1)
  show ?thesis
    using assms(1) p g
    unfolding chunkInv_def st assms(5) list_all_iff
    by (auto simp: assms(2) assms(3) closedOK_append)
qed

lemma chunkInv_open:
  assumes "chunkInv w"
  shows "chunkInv (writeChunkOpen t d w)"
proof -
  let ?w' = "writeChunkOpen t d w"
  have wf: "wfw w" using assms by (simp add: chunkInv_def)
  note o = writeChunkOpen_props [OF wf, of t d]
  note lw = length_written [OF wf]
  have st: "starts ?w' = wpos w # starts w" by (simp add: starts_def o)
  have old: "\<forall>s \<in> set (starts w). s + 24 \<le> wpos w \<and> get32 (written w) s = CHUNK_BEGIN"
    using assms by (auto simp: chunkInv_def list_all_iff)
  have sep: "\<forall>s \<in> set (starts w). \<forall>s' \<in> set (starts w). s = s' \<or> s + 24 \<le> s' \<or> s' + 24 \<le> s"
    using assms by (auto simp: chunkInv_def list_all_iff)
  have cl: "\<forall>c \<in> set (closedChunks w). closedOK (written w) c \<and>
      (\<forall>s' \<in> set (starts w). s' + 28 \<le> fst (snd c) + snd (snd c) \<or> fst (snd c) + snd (snd c) \<le> s')"
    using assms by (auto simp: chunkInv_def list_all_iff)
  have d: "distinct (starts w)" using assms by (simp add: chunkInv_def)
  have notin: "wpos w \<notin> set (starts w)" using old by auto
  have len: "wpos w + 24 \<le> wpos ?w'" using o(3) length_headerBytes [of t d "wpos w"] by simp
  have g: "s + 24 \<le> wpos w \<Longrightarrow> get32 (written ?w') s = get32 (written w) s" for s
    using lw by (simp add: o(2) get32_append1)
  have gb: "get32 (written ?w') (wpos w) = CHUNK_BEGIN"
    using headerBytes_begin [of "written w" t d "wpos w"] lw by (simp add: o(2))
  have clend: "\<forall>c \<in> set (closedChunks w). fst (snd c) + snd (snd c) \<le> wpos w"
    using cl lw by (auto simp: closedOK_def)
  show ?thesis
    unfolding chunkInv_def st o(5) list_all_iff
    using o(1) d notin old sep cl len g gb clend
    by (auto simp: o(2) closedOK_append)
qed


lemma chunkInv_close:
  assumes "chunkInv w" "writeChunkClose w = Inr w'"
  shows "chunkInv w'"
proof -
  have wf: "wfw w" using assms by (simp add: chunkInv_def)
  obtain t s rest where stk: "chunkStack w = (t, s) # rest"
    using assms(2) by (cases "chunkStack w") (auto simp: writeChunkClose_def)
  let ?e = "wpos w + padding (wpos w) + 4"
  from writeChunkClose_props [OF wf stk] assms(2)
  have c: "wfw w'" "written w' = written w @ replicate (padding (wpos w)) 0 @ le32 CHUNK_END"
    "wpos w' = ?e" "chunkStack w' = rest" "closedChunks w' = closedChunks w @ [(t, s, ?e - s)]"
    by auto
  note lw = length_written [OF wf]
  have st: "starts w = s # map snd rest @ map (\<lambda>c. fst (snd c)) (closedChunks w)"
    by (simp add: starts_def stk)
  have st': "starts w' = map snd rest @ map (\<lambda>c. fst (snd c)) (closedChunks w) @ [s]"
    by (simp add: starts_def c)
  have seteq: "set (starts w') = set (starts w)" by (auto simp: st st')
  have old: "\<forall>s \<in> set (starts w). s + 24 \<le> wpos w \<and> get32 (written w) s = CHUNK_BEGIN"
    using assms by (auto simp: chunkInv_def list_all_iff)
  have sep: "\<forall>s \<in> set (starts w). \<forall>s' \<in> set (starts w). s = s' \<or> s + 24 \<le> s' \<or> s' + 24 \<le> s"
    using assms by (auto simp: chunkInv_def list_all_iff)
  have cl: "\<forall>c \<in> set (closedChunks w). closedOK (written w) c \<and>
      (\<forall>s' \<in> set (starts w). s' + 28 \<le> fst (snd c) + snd (snd c) \<or> fst (snd c) + snd (snd c) \<le> s')"
    using assms by (auto simp: chunkInv_def list_all_iff)
  have d: "distinct (starts w')" using assms by (auto simp: chunkInv_def st st')
  have sin: "s \<in> set (starts w)" by (simp add: st)
  have g: "q + 24 \<le> wpos w \<Longrightarrow> get32 (written w') q = get32 (written w) q" for q
    using lw by (simp add: c(2) get32_append1)
  have ge: "get32 (written w') (?e - 4) = CHUNK_END"
    using get32_append3 [of "written w @ replicate (padding (wpos w)) 0" "?e - 4" CHUNK_END "[]"] lw
    by (simp add: c(2))
  have lw': "length (written w') = ?e" using length_written [OF c(1)] c(3) by simp
  have new: "closedOK (written w') (t, s, ?e - s)"
    using old sin g [of s] ge lw' by (auto simp: closedOK_def)
  have newsep: "\<forall>s' \<in> set (starts w). s' + 28 \<le> s + (?e - s)"
    using old sin by auto
  show ?thesis
    unfolding chunkInv_def list_all_iff seteq c(5)
    using c(1) d old sep cl g new newsep
    by (auto simp: c(2) c(3) closedOK_append)
qed

lemma chunkInv_step:
  assumes "chunkInv w" "step x w = Inr w'"
  shows "chunkInv w'"
proof (cases x)
  case (Write32 v)
  have wf: "wfw w" using assms by (simp add: chunkInv_def)
  show ?thesis using assms Write32 chunkInv_append [OF assms(1), of w' "le32 v"] write32_props [OF wf, of v]
    by auto
next
  case (WriteBytes bs)
  have wf: "wfw w" using assms by (simp add: chunkInv_def)
  show ?thesis using assms WriteBytes chunkInv_append [OF assms(1), of w' bs] writeBytes_props [OF wf, of bs]
    by auto
next
  case WritePadding
  have wf: "wfw w" using assms by (simp add: chunkInv_def)
  show ?thesis using assms WritePadding
      chunkInv_append [OF assms(1), of w' "replicate (padding (wpos w)) 0"] writePadding_props [OF wf]
    by auto
next
  case (ChunkOpen t d)
  then show ?thesis using assms chunkInv_open by auto
next
  case ChunkClose
  then show ?thesis using assms chunkInv_close by auto
qed

lemma chunkInv_run:
  "chunkInv w \<Longrightarrow> run ops w = Inr w' \<Longrightarrow> chunkInv w'"
proof (induction ops arbitrary: w)
  case Nil
  then show ?case by simp
next
  case (Cons x xs)
  then show ?case
    by (cases "step x w") (auto simp: bindE_def dest: chunkInv_step)
qed


lemma nth_setBytes:
  assumes "p + length bs \<le> length buf" "i < length buf"
  shows "setBytes buf p bs ! i = (if p \<le> i \<and> i < p + length bs then bs ! (i - p) else buf ! i)"
  using assms by (auto simp: setBytes_def nth_append min_def)

lemma length_setBytes: "p + length bs \<le> length buf \<Longrightarrow> length (setBytes buf p bs) = length buf"
  by (simp add: setBytes_def)

lemma take_setBytes:
  assumes "p + length bs \<le> n" "n \<le> length buf"
  shows "take n (setBytes buf p bs) = setBytes (take n buf) p bs"
proof (rule nth_equalityI)
  show "length (take n (setBytes buf p bs)) = length (setBytes (take n buf) p bs)"
    using assms by (simp add: length_setBytes)
next
  fix i assume "i < length (take n (setBytes buf p bs))"
  then have i: "i < n" by simp
  show "take n (setBytes buf p bs) ! i = setBytes (take n buf) p bs ! i"
    using assms i by (simp add: nth_setBytes)
qed

lemma get32_setBytes_same:
  assumes "p + 4 \<le> length buf"
  shows "get32 (setBytes buf p (le32 v)) p = v"
proof -
  have "setBytes buf p (le32 v) = take p buf @ le32 v @ drop (p + 4) buf"
    by (simp add: setBytes_def)
  moreover have "length (take p buf) = p" using assms by simp
  ultimately show ?thesis using get32_append3 by metis
qed

lemma get32_setBytes_other:
  assumes "p + length bs \<le> length buf" "q + 4 \<le> length buf" "q + 4 \<le> p \<or> p + length bs \<le> q"
  shows "get32 (setBytes buf p bs) q = get32 buf q"
  using assms by (auto simp: get32_def nth_setBytes)

lemma length_patchSize: "fst (snd c) + 8 \<le> length buf \<Longrightarrow> length (patchSize buf c) = length buf"
  by (cases c) (simp add: patchSize_def length_setBytes)

lemma length_foldl_patch:
  "\<forall>c \<in> set cs. fst (snd c) + 8 \<le> length buf \<Longrightarrow> length (foldl patchSize buf cs) = length buf"
  by (induction cs arbitrary: buf) (simp_all add: length_patchSize)

lemma take_foldl_patch:
  "\<forall>c \<in> set cs. fst (snd c) + 8 \<le> n \<Longrightarrow> n \<le> length buf \<Longrightarrow>
     take n (foldl patchSize buf cs) = foldl patchSize (take n buf) cs"
proof (induction cs arbitrary: buf)
  case Nil
  then show ?case by simp
next
  case (Cons c cs)
  obtain t s z where c: "c = (t, s, z)" by (cases c) auto
  have 1: "take n (patchSize buf c) = patchSize (take n buf) c"
    using Cons.prems by (simp add: c patchSize_def take_setBytes)
  have 2: "n \<le> length (patchSize buf c)"
    using Cons.prems by (simp add: length_patchSize)
  show ?case using Cons.IH [of "patchSize buf c"] Cons.prems 1 2 by simp
qed

lemma get32_foldl_other:
  "\<forall>c \<in> set cs. fst (snd c) + 8 \<le> length buf \<and> (q \<le> fst (snd c) \<or> fst (snd c) + 8 \<le> q) \<Longrightarrow>
   q + 4 \<le> length buf \<Longrightarrow> get32 (foldl patchSize buf cs) q = get32 buf q"
proof (induction cs arbitrary: buf)
  case Nil
  then show ?case by simp
next
  case (Cons c cs)
  obtain t s z where c: "c = (t, s, z)" by (cases c) auto
  have 1: "get32 (patchSize buf c) q = get32 buf q"
    using Cons.prems by (auto simp: c patchSize_def intro!: get32_setBytes_other)
  have 2: "length (patchSize buf c) = length buf"
    using Cons.prems by (simp add: length_patchSize)
  show ?case using Cons.IH [of "patchSize buf c"] Cons.prems 1 2 by simp
qed

lemma get32_foldl_same:
  "(t, s, z) \<in> set cs \<Longrightarrow> distinct (map (\<lambda>c. fst (snd c)) cs) \<Longrightarrow>
   \<forall>c \<in> set cs. fst (snd c) + 8 \<le> length buf \<and>
      (fst (snd c) = s \<or> s + 8 \<le> fst (snd c) \<or> fst (snd c) + 8 \<le> s) \<Longrightarrow>
   get32 (foldl patchSize buf cs) (s + 4) = of_nat z"
proof (induction cs arbitrary: buf)
  case Nil
  then show ?case by simp
next
  case (Cons c cs)
  have len: "length (patchSize buf c) = length buf"
    using Cons.prems by (simp add: length_patchSize)
  show ?case
  proof (cases "c = (t, s, z)")
    case True
    have notin: "\<forall>c' \<in> set cs. fst (snd c') \<noteq> s"
      using Cons.prems(2) True by (auto simp: image_iff)
    have "get32 (foldl patchSize (patchSize buf c) cs) (s + 4) = get32 (patchSize buf c) (s + 4)"
      using Cons.prems(3) notin len True
      by (intro get32_foldl_other) auto
    also have "\<dots> = of_nat z"
      using Cons.prems(3) True by (simp add: patchSize_def get32_setBytes_same)
    finally show ?thesis by simp
  next
    case False
    then have "(t, s, z) \<in> set cs" using Cons.prems(1) by auto
    then show ?thesis
      using Cons.IH [of "patchSize buf c"] Cons.prems len by auto
  qed
qed

subsection \<open>The writer: sizes of the chunks\<close>

lemma closed_start: "(t, s, z) \<in> set (closedChunks w) \<Longrightarrow> s \<in> set (starts w)"
  by (force simp: starts_def)

lemma chunkInv_startD:
  assumes "chunkInv w" "s \<in> set (starts w)"
  shows "s + 24 \<le> wpos w" "get32 (written w) s = CHUNK_BEGIN"
    "s' \<in> set (starts w) \<Longrightarrow> s = s' \<or> s + 24 \<le> s' \<or> s' + 24 \<le> s"
  using assms by (auto simp: chunkInv_def list_all_iff)

lemma chunkInv_closedD:
  assumes "chunkInv w" "(t, s, z) \<in> set (closedChunks w)"
  shows "closedOK (written w) (t, s, z)"
    "s' \<in> set (starts w) \<Longrightarrow> s' + 28 \<le> s + z \<or> s + z \<le> s'"
proof -
  have "\<forall>c \<in> set (closedChunks w). closedOK (written w) c \<and>
      (\<forall>s' \<in> set (starts w). s' + 28 \<le> fst (snd c) + snd (snd c) \<or> fst (snd c) + snd (snd c) \<le> s')"
    using assms(1) by (simp add: chunkInv_def list_all_iff)
  from bspec [OF this assms(2)]
  show "closedOK (written w) (t, s, z)"
    "s' \<in> set (starts w) \<Longrightarrow> s' + 28 \<le> s + z \<or> s + z \<le> s'"
    by auto
qed

lemma chunkInv_distinct:
  "chunkInv w \<Longrightarrow> distinct (map (\<lambda>c. fst (snd c)) (closedChunks w))"
  by (simp add: chunkInv_def starts_def)

lemma getData_written:
  assumes "chunkInv w"
  shows "getData w = foldl patchSize (written w) (closedChunks w)"
proof -
  have wf: "wfw w" using assms by (simp add: chunkInv_def)
  have "\<forall>c \<in> set (closedChunks w). fst (snd c) + 8 \<le> wpos w"
  proof
    fix c assume c: "c \<in> set (closedChunks w)"
    obtain t s z where e: "c = (t, s, z)" by (cases c) auto
    show "fst (snd c) + 8 \<le> wpos w"
      using chunkInv_startD(1) [OF assms closed_start [of t s z w]] c e by simp
  qed
  then show ?thesis
    using wf by (simp add: getData_def written_def take_foldl_patch wfw_def)
qed

lemma step_count:
  assumes "wfw w" "step x w = Inr w1"
  shows "length (closedChunks w1) + length (chunkStack w1) =
         length (closedChunks w) + length (chunkStack w) + (if isChunkOpen x then 1 else 0)"
proof (cases x)
  case (Write32 v)
  then show ?thesis using assms write32_props(4,5) [OF assms(1), of v] by (auto simp: isChunkOpen_def)
next
  case (WriteBytes bs)
  then show ?thesis using assms writeBytes_props(4,5) [OF assms(1), of bs] by (auto simp: isChunkOpen_def)
next
  case WritePadding
  then show ?thesis using assms writePadding_props(4,5) [OF assms(1)] by (auto simp: isChunkOpen_def)
next
  case (ChunkOpen t d)
  then show ?thesis using assms writeChunkOpen_props(4,5) [OF assms(1), of t d] by (auto simp: isChunkOpen_def)
next
  case ChunkClose
  obtain t s rest where stk: "chunkStack w = (t, s) # rest"
    using assms(2) ChunkClose by (cases "chunkStack w") (auto simp: writeChunkClose_def)
  show ?thesis
    using writeChunkClose_props [OF assms(1) stk] assms(2) ChunkClose stk
    by (auto simp: isChunkOpen_def)
qed

lemma run_count:
  "chunkInv w \<Longrightarrow> run ops w = Inr w' \<Longrightarrow>
     length (closedChunks w') + length (chunkStack w') =
     length (closedChunks w) + length (chunkStack w) + length (filter isChunkOpen ops)"
proof (induction ops arbitrary: w)
  case Nil
  then show ?case by simp
next
  case (Cons x xs)
  obtain w1 where s: "step x w = Inr w1" and r: "run xs w1 = Inr w'"
    using Cons.prems by (cases "step x w") (auto simp: bindE_def)
  have wf: "wfw w" using Cons.prems(1) by (simp add: chunkInv_def)
  have i1: "chunkInv w1" using chunkInv_step [OF Cons.prems(1) s] .
  show ?case using Cons.IH [OF i1 r] step_count [OF wf s] by simp
qed

text \<open>
  Claim C5. In the byte stream that \<open>getData\<close> returns after any run of the writer's
  operations on a new writer, every closed chunk \<open>(type, s, z)\<close> lies inside the stream,
  begins at \<open>s\<close> with the begin-magic and ends at \<open>s + z\<close> with the end-magic, and the
  32-bit word after its begin-magic is \<open>z\<close>, the distance in bytes from its begin-magic
  through its end-magic; this holds for nested chunks as for the others, after the
  deferred back-patch of \<open>getData\<close>. Every chunk that was opened is either closed or
  still on the stack. (The stream is shorter than \<open>2^32\<close> bytes, so that a size fits
  its field.)
\<close>

theorem chunk_size_fields:
  assumes "run ops (newWriter n) = Inr w"
    and "(t, s, z) \<in> set (closedChunks w)"
    and "length (getData w) < 2 ^ 32"
  shows "s + z \<le> length (getData w) \<and>
         get32 (getData w) s = CHUNK_BEGIN \<and>
         unat (get32 (getData w) (s + 4)) = z \<and>
         get32 (getData w) (s + z - 4) = CHUNK_END \<and>
         length (closedChunks w) + length (chunkStack w) = length (filter isChunkOpen ops)"
proof -
  have inv: "chunkInv w" using chunkInv_run [OF chunkInv_new assms(1)] .
  have wf: "wfw w" using inv by (simp add: chunkInv_def)
  note lw = length_written [OF wf]
  let ?cs = "closedChunks w"
  have gd: "getData w = foldl patchSize (written w) ?cs" by (rule getData_written [OF inv])
  have sin: "s \<in> set (starts w)" using assms(2) by (rule closed_start)
  have slots: "\<forall>c \<in> set ?cs. fst (snd c) + 8 \<le> length (written w)"
  proof
    fix c assume c: "c \<in> set ?cs"
    obtain t' s' z' where e: "c = (t', s', z')" by (cases c) auto
    show "fst (snd c) + 8 \<le> length (written w)"
      using chunkInv_startD(1) [OF inv closed_start [of t' s' z' w]] c e lw by simp
  qed
  have len: "length (getData w) = wpos w"
    using slots lw by (simp add: gd length_foldl_patch)
  have ok: "closedOK (written w) (t, s, z)" by (rule chunkInv_closedD(1) [OF inv assms(2)])
  have sepS: "\<forall>c \<in> set ?cs. fst (snd c) = s \<or> s + 24 \<le> fst (snd c) \<or> fst (snd c) + 24 \<le> s"
  proof
    fix c assume c: "c \<in> set ?cs"
    obtain t' s' z' where e: "c = (t', s', z')" by (cases c) auto
    show "fst (snd c) = s \<or> s + 24 \<le> fst (snd c) \<or> fst (snd c) + 24 \<le> s"
      using chunkInv_startD(3) [OF inv sin closed_start [of t' s' z' w]] c e by auto
  qed
  have sepE: "\<forall>c \<in> set ?cs. fst (snd c) + 28 \<le> s + z \<or> s + z \<le> fst (snd c)"
  proof
    fix c assume c: "c \<in> set ?cs"
    obtain t' s' z' where e: "c = (t', s', z')" by (cases c) auto
    show "fst (snd c) + 28 \<le> s + z \<or> s + z \<le> fst (snd c)"
      using chunkInv_closedD(2) [OF inv assms(2) closed_start [of t' s' z' w]] c e by auto
  qed
  have 1: "s + z \<le> length (getData w)"
    using ok lw len by (simp add: closedOK_def)
  have 2: "get32 (getData w) s = CHUNK_BEGIN"
  proof -
    have "get32 (foldl patchSize (written w) ?cs) s = get32 (written w) s"
      using slots sepS ok by (intro get32_foldl_other) (auto simp: closedOK_def)
    then show ?thesis using ok by (simp add: gd closedOK_def)
  qed
  have 3: "get32 (getData w) (s + 4) = of_nat z"
    unfolding gd
    using assms(2) chunkInv_distinct [OF inv] slots sepS
    by (intro get32_foldl_same [of t]) auto
  have "z < 2 ^ 32" using 1 assms(3) by simp
  then have f3: "unat (get32 (getData w) (s + 4)) = z"
    by (simp add: 3 unat_of_nat)
  have 4: "get32 (getData w) (s + z - 4) = CHUNK_END"
  proof -
    have "get32 (foldl patchSize (written w) ?cs) (s + z - 4) = get32 (written w) (s + z - 4)"
      using slots sepE ok by (intro get32_foldl_other) (auto simp: closedOK_def)
    then show ?thesis using ok by (simp add: gd closedOK_def)
  qed
  have 5: "length (closedChunks w) + length (chunkStack w) = length (filter isChunkOpen ops)"
    using run_count [OF chunkInv_new assms(1)] by (simp add: newWriter_def)
  show ?thesis using 1 2 f3 4 5 by simp
qed

theorem chunk_size_fields_witness:
  "run [ChunkOpen WRAPPER None, ChunkOpen DATABASE_FLAGS None, Write32 274, ChunkClose, ChunkClose]
     (newWriter 0)
   = Inr \<lparr>buffer =
            [0xAA, 0xAA, 0xAA, 0xAA, 0, 0, 0, 0, 0, 0, 0, 0, 0, 0, 0, 0, 0, 0, 0, 0,
             0xBB, 0xBB, 0xBB, 0xBB,
             0xAA, 0xAA, 0xAA, 0xAA, 0, 0, 0, 0, 2, 0, 0, 0, 0, 0, 0, 0, 0, 0, 0, 0,
             0xBB, 0xBB, 0xBB, 0xBB, 0x12, 1, 0, 0, 0xCC, 0xCC, 0xCC, 0xCC,
             0xCC, 0xCC, 0xCC, 0xCC, 0, 0],
          wpos = 60, chunkStack = [], closedChunks = [(2, 24, 32), (0, 0, 60)]\<rparr>
   \<and> unat (get32 (getData \<lparr>buffer =
            [0xAA, 0xAA, 0xAA, 0xAA, 0, 0, 0, 0, 0, 0, 0, 0, 0, 0, 0, 0, 0, 0, 0, 0,
             0xBB, 0xBB, 0xBB, 0xBB,
             0xAA, 0xAA, 0xAA, 0xAA, 0, 0, 0, 0, 2, 0, 0, 0, 0, 0, 0, 0, 0, 0, 0, 0,
             0xBB, 0xBB, 0xBB, 0xBB, 0x12, 1, 0, 0, 0xCC, 0xCC, 0xCC, 0xCC,
             0xCC, 0xCC, 0xCC, 0xCC, 0, 0],
          wpos = 60, chunkStack = [], closedChunks = [(2, 24, 32), (0, 0, 60)]\<rparr>) (24 + 4)) = 32"
proof -
  let ?w = "\<lparr>buffer =
            [0xAA, 0xAA, 0xAA, 0xAA, 0, 0, 0, 0, 0, 0, 0, 0, 0, 0, 0, 0, 0, 0, 0, 0,
             0xBB, 0xBB, 0xBB, 0xBB,
             0xAA, 0xAA, 0xAA, 0xAA, 0, 0, 0, 0, 2, 0, 0, 0, 0, 0, 0, 0, 0, 0, 0, 0,
             0xBB, 0xBB, 0xBB, 0xBB, 0x12, 1, 0, 0, 0xCC, 0xCC, 0xCC, 0xCC,
             0xCC, 0xCC, 0xCC, 0xCC, 0, 0 :: u8],
          wpos = 60, chunkStack = [], closedChunks = [(2 :: u32, 24 :: nat, 32 :: nat), (0, 0, 60)]\<rparr>"
  have r: "run [ChunkOpen WRAPPER None, ChunkOpen DATABASE_FLAGS None, Write32 274, ChunkClose, ChunkClose]
     (newWriter 0) = Inr ?w"
    by (simp add: writer_eval cong: bindE_weak_cong Let_weak_cong)
  have m: "(2, 24, 32) \<in> set (closedChunks ?w)" by simp
  have l: "length (getData ?w) < 2 ^ 32" by (simp add: getData_def)
  show ?thesis using chunk_size_fields [OF r m l] r by simp
qed

subsection \<open>The reader: evaluation\<close>

lemmas readChunk_numeral = readChunk.simps(2) [where n = "pred_numeral k", folded numeral_eq_Suc] for k
lemmas readChildren_numeral = readChildren.simps(2) [where n = "pred_numeral k", folded numeral_eq_Suc] for k
lemmas readWords_numeral = readWords.simps(2) [where k = "pred_numeral k", folded numeral_eq_Suc] for k
lemmas readItems_numeral = readItems.simps(2) [where k = "pred_numeral k", folded numeral_eq_Suc] for k
lemmas rd = bindE_Inr bindE_Inl Let_def read32_def get32_def word_of_bytes_def readChunkHeader_def readPadding_def padding_def
  isValueType_def isContainerType_def chunk_type_defs readBytes_def wordCount_def
  readChunk_numeral readChildren_numeral readWords_numeral readItems_numeral readArray_def
  decodeText_def char_of_byte_def tableItem_def columnItem_def convertColumnData_def child_def
  chunk_type_def chunk_value_def data_type_defs

lemma bindE_InrE:
  assumes "bindE m f = Inr r"
  obtains x where "m = Inr x" and "f x = Inr r"
  using assms by (cases m) (simp_all add: bindE_def)

lemma sameBytes_nth:
  assumes "sameBytes d d' a b" and "a \<le> i" and "i < b" and "i < length d"
  shows "d' ! i = d ! i"
proof -
  have l: "length d' = length d"
    and e: "take (b - a) (drop a d') = take (b - a) (drop a d)"
    using assms(1) by (simp_all add: sameBytes_def)
  have "d' ! i = take (b - a) (drop a d') ! (i - a)"
    using assms(2-4) l by simp
  also have "\<dots> = take (b - a) (drop a d) ! (i - a)"
    by (simp only: e)
  also have "\<dots> = d ! i"
    using assms(2-4) by simp
  finally show ?thesis .
qed

lemma sameBytesI:
  assumes "length d' = length d"
    and "\<And>i. a \<le> i \<Longrightarrow> i < b \<Longrightarrow> i < length d \<Longrightarrow> d' ! i = d ! i"
  shows "sameBytes d d' a b"
  unfolding sameBytes_def
proof (intro conjI nth_equalityI)
  show "length d' = length d" by (rule assms(1))
  show "length (take (b - a) (drop a d')) = length (take (b - a) (drop a d))"
    using assms(1) by simp
  fix i assume "i < length (take (b - a) (drop a d'))"
  then have "i < b - a" and "a + i < length d"
    using assms(1) by auto
  then show "take (b - a) (drop a d') ! i = take (b - a) (drop a d) ! i"
    using assms(1) assms(2) [of "a + i"] by simp
qed

lemma sameBytes_mono:
  assumes "sameBytes d d' a b" and "a \<le> a'" and "b' \<le> b"
  shows "sameBytes d d' a' b'"
proof (rule sameBytesI)
  show "length d' = length d" using assms(1) by (simp add: sameBytes_def)
  fix i assume "a' \<le> i" "i < b'" "i < length d"
  then show "d' ! i = d ! i"
    using sameBytes_nth [OF assms(1), of i] assms(2,3) by simp
qed

lemma sameBytes_length: "sameBytes d d' a b \<Longrightarrow> length d' = length d"
  by (simp add: sameBytes_def)

subsection \<open>The reader: every read is local\<close>

lemma localRI:
  assumes "\<And>d p r p'. f d p = Inr (r, p') \<Longrightarrow> p \<le> p'"
    and "\<And>d d' p r p'. f d p = Inr (r, p') \<Longrightarrow> sameBytes d d' p p' \<Longrightarrow> f d' p = Inr (r, p')"
  shows "localR f"
  using assms unfolding localR_def by blast

lemma localR_le: "localR f \<Longrightarrow> f d p = Inr (r, p') \<Longrightarrow> p \<le> p'"
  unfolding localR_def by blast

lemma localR_same:
  "localR f \<Longrightarrow> f d p = Inr (r, p') \<Longrightarrow> sameBytes d d' p p' \<Longrightarrow> f d' p = Inr (r, p')"
  unfolding localR_def by blast

lemma get32_same:
  assumes "sameBytes d d' p (p + 4)" and "p + 4 \<le> length d"
  shows "get32 d' p = get32 d p"
proof -
  have "d' ! p = d ! p" "d' ! (p + 1) = d ! (p + 1)" "d' ! (p + 2) = d ! (p + 2)"
    "d' ! (p + 3) = d ! (p + 3)"
    using assms sameBytes_nth [OF assms(1)] by simp_all
  then show ?thesis by (simp add: get32_def)
qed

lemma localR_read32: "localR read32"
proof (rule localRI)
  fix d p r p' assume "read32 d p = Inr (r, p')"
  then show "p \<le> p'" by (simp add: read32_def split: if_splits)
next
  fix d d' p r p' assume a: "read32 d p = Inr (r, p')" and s: "sameBytes d d' p p'"
  from a have b: "p + 4 \<le> length d" "p' = p + 4" "r = get32 d p"
    by (auto simp: read32_def split: if_splits)
  show "read32 d' p = Inr (r, p')"
    using b get32_same [of d d' p] s sameBytes_length [OF s] by (simp add: read32_def)
qed

lemma localR_readBytes: "localR (\<lambda>d p. readBytes d p (g p))"
proof (rule localRI)
  fix d p r p' assume "readBytes d p (g p) = Inr (r, p')"
  then show "p \<le> p'" by (simp add: readBytes_def split: if_splits)
next
  fix d d' p r p' assume a: "readBytes d p (g p) = Inr (r, p')" and s: "sameBytes d d' p p'"
  from a have b: "int p + g p \<le> int (length d)" "0 \<le> g p" "p' = p + nat (g p)"
    "r = take (nat (g p)) (drop p d)"
    by (auto simp: readBytes_def split: if_splits)
  from s b have "take (nat (g p)) (drop p d') = take (nat (g p)) (drop p d)"
    by (simp add: sameBytes_def)
  then show "readBytes d' p (g p) = Inr (r, p')"
    using b sameBytes_length [OF s] by (simp add: readBytes_def)
qed

lemma localR_return: "localR (\<lambda>d p. Inr (c, p + k))"
  by (simp add: localR_def)

lemma localR_return0: "localR (\<lambda>d p. Inr (c, p))"
  by (simp add: localR_def)

lemma localR_bind:
  assumes m: "localR m" and k: "\<And>p x. localR (k p x)"
  shows "localR (\<lambda>d p. bindE (m d p) (\<lambda>(x, q). k p x d q))"
proof (rule localRI)
  fix d p r p' assume a: "bindE (m d p) (\<lambda>(x, q). k p x d q) = Inr (r, p')"
  then obtain x q where 1: "m d p = Inr (x, q)" and 2: "k p x d q = Inr (r, p')"
    by (auto elim!: bindE_InrE)
  show "p \<le> p'" using localR_le [OF m 1] localR_le [OF k 2] by simp
next
  fix d d' p r p'
  assume a: "bindE (m d p) (\<lambda>(x, q). k p x d q) = Inr (r, p')" and s: "sameBytes d d' p p'"
  then obtain x q where 1: "m d p = Inr (x, q)" and 2: "k p x d q = Inr (r, p')"
    by (auto elim!: bindE_InrE)
  have le: "p \<le> q" "q \<le> p'" using localR_le [OF m 1] localR_le [OF k 2] by simp_all
  have "m d' p = Inr (x, q)"
    using localR_same [OF m 1] sameBytes_mono [OF s] le by simp
  moreover have "k p x d' q = Inr (r, p')"
    using localR_same [OF k 2] sameBytes_mono [OF s] le by simp
  ultimately show "bindE (m d' p) (\<lambda>(x, q). k p x d' q) = Inr (r, p')"
    by (simp add: bindE_def)
qed

lemma localR_if:
  "localR f \<Longrightarrow> localR g \<Longrightarrow> localR (\<lambda>d p. if c p then f d p else g d p)"
proof (rule localRI)
  fix d p r p' assume a: "(if c p then f d p else g d p) = Inr (r, p')"
  assume f: "localR f" and g: "localR g"
  show "p \<le> p'"
    using a localR_le [OF f, of d p r p'] localR_le [OF g, of d p r p'] by (cases "c p") simp_all
next
  fix d d' p r p'
  assume a: "(if c p then f d p else g d p) = Inr (r, p')" and s: "sameBytes d d' p p'"
  assume f: "localR f" and g: "localR g"
  show "(if c p then f d' p else g d' p) = Inr (r, p')"
    using a localR_same [OF f _ s, of r] localR_same [OF g _ s, of r] by (cases "c p") simp_all
qed

lemma localR_fail: "localR (\<lambda>d p. Inl e)"
  by (simp add: localR_def)

lemma localR_shift:
  assumes m: "localR m" and g: "\<And>p. p \<le> g p"
  shows "localR (\<lambda>d p. m d (g p))"
proof (rule localRI)
  fix d p r p' assume a: "m d (g p) = Inr (r, p')"
  show "p \<le> p'" using localR_le [OF m a] g [of p] by simp
next
  fix d d' p r p' assume a: "m d (g p) = Inr (r, p')" and s: "sameBytes d d' p p'"
  show "m d' (g p) = Inr (r, p')"
    using localR_same [OF m a] sameBytes_mono [OF s, of "g p" p'] g [of p] by simp
qed

lemma readPadding_ge: "p \<le> readPadding p"
  by (simp add: readPadding_def)

lemma localR_pure:
  "localR (\<lambda>d p. bindE c (\<lambda>y. Inr (f y, p)))"
  by (cases c) (simp_all add: localR_def bindE_def)

lemma bindE_assoc: "bindE (bindE m f) g = bindE m (\<lambda>x. bindE (f x) g)"
  by (cases m) (simp_all add: bindE_def)

lemma readChunkHeader_fields:
  "readChunkHeader d pos =
     bindE (read32 d pos) (\<lambda>(magic, p1).
     bindE (headerFields d p1) (\<lambda>(f, p8).
     bindE (read32 d (readPadding p8)) (\<lambda>(separator, p9). Inr (mkHeader f, p9))))"
  by (simp add: readChunkHeader_def headerFields_def mkHeader_def split_def bindE_assoc bindE_Inr)

lemma localR_headerFields: "localR headerFields"
proof -
  have "localR (\<lambda>d p1.
     bindE (read32 d p1) (\<lambda>(chunkSize, p2).
     bindE (read32 d p2) (\<lambda>(chunkType, p3).
     bindE (read32 d p3) (\<lambda>(flags, p4).
     bindE (read32 d p4) (\<lambda>(hasDescription, p5).
     bindE (if hasDescription \<noteq> 0
            then bindE (read32 d p5) (\<lambda>(descLength, p6).
                 bindE (readBytes d p6 (uint descLength - 1)) (\<lambda>(descBytes, p7).
                 Inr (Some (decodeText descBytes), p7 + 1)))
            else Inr (None, p5)) (\<lambda>(description, p8).
     Inr ((chunkSize, chunkType, flags, description), p8)))))))"
    by (intro localR_bind localR_read32 localR_if localR_readBytes localR_return localR_return0)
  then show ?thesis
    by (simp add: headerFields_def [abs_def])
qed


lemma localR_readChunkHeader: "localR readChunkHeader"
  unfolding readChunkHeader_fields [abs_def]
  by (intro localR_bind localR_read32 localR_headerFields localR_return0
        localR_shift [OF localR_read32 readPadding_ge])

lemma localR_readWords_fixed: "localR (\<lambda>d p. readWords d k p)"
proof (induction k)
  case 0
  show ?case by (simp add: localR_return0)
next
  case (Suc k)
  have "localR (\<lambda>d p. bindE (read32 d p) (\<lambda>(v, p1).
          bindE (readWords d k p1) (\<lambda>(vs, p2). Inr (v # vs, p2))))"
    by (intro localR_bind localR_read32 Suc localR_return0)
  then show ?case by simp
qed

lemma localR_readWords: "localR (\<lambda>d p. readWords d (g p) p)"
proof (rule localRI)
  fix d p r p' assume "readWords d (g p) p = Inr (r, p')"
  then show "p \<le> p'" by (rule localR_le [OF localR_readWords_fixed])
next
  fix d d' p r p' assume "readWords d (g p) p = Inr (r, p')" "sameBytes d d' p p'"
  then show "readWords d' (g p) p = Inr (r, p')"
    by (rule localR_same [OF localR_readWords_fixed])
qed

lemma localR_readItems:
  assumes "localR item"
  shows "localR (\<lambda>d p. readItems (item d) k p)"
proof (induction k)
  case 0
  show ?case by (simp add: localR_return0)
next
  case (Suc k)
  have "localR (\<lambda>d p. bindE (item d p) (\<lambda>(x, p1).
          bindE (readItems (item d) k p1) (\<lambda>(xs, p2). Inr (x # xs, p2))))"
    by (intro localR_bind assms Suc localR_return0)
  then show ?case by simp
qed

lemma localR_readArray:
  assumes "localR item"
  shows "localR (\<lambda>d p. readArray d (item d) p)"
  unfolding readArray_def
  by (intro localR_bind localR_read32 localR_readItems assms localR_return0)

lemma localR_item:
  assumes c: "localR (readChunk nts n)"
  shows "localR (\<lambda>d p. bindE (readChunk nts n d p) (\<lambda>(chunk, p').
              bindE (g chunk) (\<lambda>item. Inr (item, p'))))"
  by (intro localR_bind c localR_pure [where f = "\<lambda>y. y"])

lemma localR_readChildren_Suc:
  assumes c: "localR (readChunk nts n)"
    and ch: "\<And>e cs. localR (\<lambda>d p. readChildren nts n d e cs p)"
  shows "localR (\<lambda>d p. readChildren nts (Suc n) d e cs p)"
  unfolding readChildren.simps(2)
  by (intro localR_bind localR_if localR_return0 c ch)


lemma localR_readChunk_Suc:
  assumes c: "localR (readChunk nts n)"
    and ch: "\<And>e cs. localR (\<lambda>d p. readChildren nts n d e cs p)"
  shows "localR (readChunk nts (Suc n))"
  unfolding readChunk.simps(2) [abs_def] Let_def
  by (intro localR_bind localR_if localR_readChunkHeader localR_read32 localR_return0
          localR_readWords localR_readBytes localR_readArray localR_item c ch localR_fail
          localR_shift [OF localR_read32 readPadding_ge])

lemma localR_readChunk_both:
  "localR (readChunk nts n) \<and> (\<forall>e cs. localR (\<lambda>d p. readChildren nts n d e cs p))"
proof (induction n)
  case 0
  show ?case by (simp add: localR_fail)
next
  case (Suc n)
  then show ?case
    by (intro conjI allI localR_readChunk_Suc localR_readChildren_Suc) blast+
qed

lemma localR_readChunk: "localR (readChunk nts n)"
  using localR_readChunk_both by blast

subsection \<open>The reader: the sentinels\<close>

text \<open>
  Claim C4, as stated: reading a chunk fails with a bad-magic error whenever the begin
  word is not \<open>0xAAAAAAAA\<close>, the separator word is not \<open>0xBBBBBBBB\<close> or the end word is
  not \<open>0xCCCCCCCC\<close>. The reader has no such error and compares none of the three words:
  the chunk whose three sentinel words are \<open>0x11111111\<close>, \<open>0x22222222\<close> and
  \<open>0x33333333\<close> is read as the \<open>DATABASE_FLAGS\<close> chunk of value 274.
\<close>

theorem wrong_sentinels_accepted:
  "readChunk (\<lambda>x. []) 1 wrong_sentinels 0 = Inr (ValueChunk DATABASE_FLAGS (VWord 274), 32)
   \<and> get32 wrong_sentinels 0 \<noteq> CHUNK_BEGIN \<and> get32 wrong_sentinels 20 \<noteq> CHUNK_SEPARATOR
   \<and> get32 wrong_sentinels 28 \<noteq> CHUNK_END"
  by (simp add: wrong_sentinels_def rd bytes_eval cong: bindE_weak_cong Let_weak_cong)

text \<open>
  Claim C4, amended: the reader reads the three sentinel words of a chunk and discards
  them. When a chunk at \<open>pos\<close> is read with success, its header ending at \<open>b\<close> and the
  chunk at \<open>e\<close>, then every input of the same length that has the same bytes between
  the begin word and the separator word, and between the separator word and the end
  word, is read with the same result: the words at \<open>pos\<close>, \<open>b - 4\<close> and \<open>e - 4\<close> can hold
  anything.
\<close>

theorem sentinels_not_compared:
  assumes h: "readChunkHeader d pos = Inr (h, b)"
    and r: "readChunk nts n d pos = Inr (c, e)"
    and s1: "sameBytes d d' (pos + 4) (b - 4)"
    and s2: "sameBytes d d' b (e - 4)"
  shows "readChunk nts n d' pos = Inr (c, e)"
proof (cases n)
  case 0
  then show ?thesis using r by simp
next
  case (Suc m)
  have l: "length d' = length d" using s1 by (rule sameBytes_length)
  define body where "body = (\<lambda>d pos'. 
       (let chunkEndPos = pos + unat (chunkSize h); t = chunkType h in
        if isValueType t then
          bindE (read32 d pos') (\<lambda>(v, p). Inr (ValueChunk t (VWord v), p))
        else if t = COLUMN_VALUES then
          bindE (readWords d (wordCount (int chunkEndPos - int pos' - 4)) pos') (\<lambda>(values, p).
          Inr (ValueChunk t (VWords values), p))
        else if t = COLUMN_BLOB_DATA then
          bindE (readBytes d pos' (int chunkEndPos - int pos' - 4)) (\<lambda>(bs, p).
          Inr (ValueChunk t (VBytes bs), p))
        else if t = DATABASE_TABLES then
          bindE (readArray d (\<lambda>p. bindE (readChunk nts m d p) (\<lambda>(tableChunk, p').
                                    bindE (tableItem tableChunk) (\<lambda>item. Inr (item, p')))) pos')
            (\<lambda>(tables, p). Inr (ValueChunk t (VTables tables), p))
        else if t = COLUMN_DEFINITIONS then
          bindE (readArray d (\<lambda>p. bindE (readChunk nts m d p) (\<lambda>(columnChunk, p').
                                    bindE (columnItem nts columnChunk) (\<lambda>item. Inr (item, p')))) pos')
            (\<lambda>(columns, p). Inr (ValueChunk t (VColumns columns), p))
        else if isContainerType t then
          bindE (readChildren nts m d chunkEndPos [] pos') (\<lambda>(children, p).
          Inr (ContainerChunk t h children, p))
        else Inl (UnknownChunkType t)))"
  have lb: "localR body"
    unfolding body_def Let_def
    by (intro localR_bind localR_if localR_read32 localR_return0
          localR_readWords localR_readBytes localR_readArray localR_item localR_readChunk
          localR_readChunk_both [THEN conjunct2, rule_format] localR_fail)
  have unf: "readChunk nts n x pos = bindE (readChunkHeader x pos) (\<lambda>(header, p).
        bindE (if header = h then body x p else Inl OutOfFuel) (\<lambda>(result, q).
        bindE (read32 x (readPadding q)) (\<lambda>(endMagic, p'). Inr (result, p'))))"
    if "readChunkHeader x pos = Inr (h, b)" for x
    using that by (simp add: Suc body_def bindE_Inr Let_def)
  from r obtain q where b: "body d b = Inr (c, q)" and e: "e = readPadding q + 4"
    and le: "readPadding q + 4 \<le> length d"
    unfolding unf [OF h] h
    by (auto simp: bindE_Inr read32_def elim!: bindE_InrE split: if_splits)
  have bq: "b \<le> q" using localR_le [OF lb b] .
  have "sameBytes d d' b q"
    using sameBytes_mono [OF s2, of b q] e readPadding_ge [of q] by simp
  then have b': "body d' b = Inr (c, q)"
    using localR_same [OF lb b] by simp
  obtain f p8 where hf: "headerFields d (pos + 4) = Inr (f, p8)" and hm: "h = mkHeader f"
    and hb: "b = readPadding p8 + 4" and hl: "pos + 4 \<le> length d" "readPadding p8 + 4 \<le> length d"
    using h unfolding readChunkHeader_fields
    by (auto simp: bindE_Inr read32_def elim!: bindE_InrE split: if_splits)
  have "sameBytes d d' (pos + 4) p8"
    using sameBytes_mono [OF s1, of "pos + 4" p8] hb readPadding_ge [of p8] by simp
  then have hf': "headerFields d' (pos + 4) = Inr (f, p8)"
    using localR_same [OF localR_headerFields hf] by simp
  have h': "readChunkHeader d' pos = Inr (h, b)"
    unfolding readChunkHeader_fields using hf' hm hb hl l
    by (simp add: read32_def bindE_Inr)
  show ?thesis
    unfolding unf [OF h'] h' using b' e le l
    by (simp add: bindE_Inr read32_def)
qed

theorem sentinels_not_compared_witness:
  "readChunkHeader right_sentinels 0 =
     Inr (\<lparr>chunkSize = 32, chunkType = DATABASE_FLAGS, flags = 0, description = None\<rparr>, 24)
   \<and> readChunk (\<lambda>x. []) 1 right_sentinels 0 = Inr (ValueChunk DATABASE_FLAGS (VWord 274), 32)
   \<and> sameBytes right_sentinels wrong_sentinels (0 + 4) (24 - 4)
   \<and> sameBytes right_sentinels wrong_sentinels 24 (32 - 4)
   \<and> readChunk (\<lambda>x. []) 1 wrong_sentinels 0 = Inr (ValueChunk DATABASE_FLAGS (VWord 274), 32)"
proof -
  have h: "readChunkHeader right_sentinels 0 =
     Inr (\<lparr>chunkSize = 32, chunkType = DATABASE_FLAGS, flags = 0, description = None\<rparr>, 24)"
    by (simp add: right_sentinels_def rd bytes_eval cong: bindE_weak_cong Let_weak_cong)
  have r: "readChunk (\<lambda>x. []) 1 right_sentinels 0 = Inr (ValueChunk DATABASE_FLAGS (VWord 274), 32)"
    by (simp add: right_sentinels_def rd bytes_eval cong: bindE_weak_cong Let_weak_cong)
  have s1: "sameBytes right_sentinels wrong_sentinels (0 + 4) (24 - 4)"
    by (simp add: sameBytes_def right_sentinels_def wrong_sentinels_def bytes_eval)
  have s2: "sameBytes right_sentinels wrong_sentinels 24 (32 - 4)"
    by (simp add: sameBytes_def right_sentinels_def wrong_sentinels_def bytes_eval)
  show ?thesis
    using sentinels_not_compared [OF h r s1 s2] h r s1 s2 by blast
qed

subsection \<open>The reader: the end of a container\<close>

lemma readChildren_stop:
  "readChildren nts n d e cs p = Inr (cs', q) \<Longrightarrow> int e - int q < 20"
proof (induction n arbitrary: cs p)
  case 0
  then show ?case by simp
next
  case (Suc n)
  show ?case
  proof (cases "p < e \<and> \<not> int e - int p < 20")
    case True
    then obtain c p1 where "readChildren nts n d e
        (AList.update (chunk_type c) (chunk_value c) cs) p1 = Inr (cs', q)"
      using Suc.prems by (auto elim!: bindE_InrE)
    then show ?thesis by (rule Suc.IH)
  next
    case False
    then have "q = p" using Suc.prems by (auto split: if_splits)
    then show ?thesis using False by auto
  qed
qed

lemma container_not_value:
  "isContainerType t \<Longrightarrow> \<not> isValueType t \<and> t \<noteq> COLUMN_VALUES \<and> t \<noteq> COLUMN_BLOB_DATA
     \<and> t \<noteq> DATABASE_TABLES \<and> t \<noteq> COLUMN_DEFINITIONS"
  by (auto simp: isContainerType_def isValueType_def chunk_type_defs)

text \<open>
  Claim C10, as stated: when fewer than 20 bytes remain before the declared end of a
  container, the rest of the container is skipped without reading it and without
  raising an error. The cursor is not moved to the declared end: the reader reads the
  next word as the end sentinel and goes on from there. The container of declared size
  32 ends at offset 28; and in the container of declared size 100, the reader takes the
  first of the 16 bytes that remain in the \<open>TABLE\<close> chunk for its end, reads a chunk
  header from the 12 others, and raises the unknown-chunk-type error.
\<close>

theorem container_tail_counterexample:
  "readChunk (\<lambda>x. []) 2 short_container 0 =
     Inr (ContainerChunk WRAPPER \<lparr>chunkSize = 32, chunkType = WRAPPER, flags = 0, description = None\<rparr> [], 28)
   \<and> readChunk (\<lambda>x. []) 5 trailing_container 0 = Inl (UnknownChunkType CHUNK_END)"
  by (simp add: short_container_def trailing_container_def rd bytes_eval cong: bindE_weak_cong Let_weak_cong)

text \<open>
  Claim C10, amended: the loop of a container reads a child only while at least 20
  bytes remain before the declared end of the container. When the loop has stopped
  at \<open>q\<close>, fewer than 20 bytes remain, and they are not skipped: the reader aligns \<open>q\<close>
  to four bytes and reads one word there, so the chunk ends four bytes after the aligned
  \<open>q\<close>, and the read fails with the read-past-end error when the input ends before.
\<close>

theorem container_tail:
  assumes "readChunkHeader d pos = Inr (h, b)"
    and "isContainerType (chunkType h)"
    and "readChildren nts n d (pos + unat (chunkSize h)) [] b = Inr (cs, q)"
  shows "readChildren nts (Suc m) d e cs0 p0 =
           (if 20 \<le> int e - int p0
            then bindE (readChunk nts m d p0) (\<lambda>(chunk, p).
                   readChildren nts m d e
                     (AList.update (chunk_type chunk) (chunk_value chunk) cs0) p)
            else Inr (cs0, p0))
         \<and> int (pos + unat (chunkSize h)) - int q < 20
         \<and> readChunk nts (Suc n) d pos =
           (if readPadding q + 4 \<le> length d
            then Inr (ContainerChunk (chunkType h) h cs, readPadding q + 4)
            else Inl (ReadPastEnd (readPadding q)))"
proof -
  have "readChunk nts (Suc n) d pos =
           (if readPadding q + 4 \<le> length d
            then Inr (ContainerChunk (chunkType h) h cs, readPadding q + 4)
            else Inl (ReadPastEnd (readPadding q)))"
    using assms container_not_value [OF assms(2)]
    by (simp add: bindE_Inr bindE_Inl read32_def)
  moreover have "int (pos + unat (chunkSize h)) - int q < 20"
    using readChildren_stop [OF assms(3)] .
  moreover have "readChildren nts (Suc m) d e cs0 p0 =
           (if 20 \<le> int e - int p0
            then bindE (readChunk nts m d p0) (\<lambda>(chunk, p).
                   readChildren nts m d e
                     (AList.update (chunk_type chunk) (chunk_value chunk) cs0) p)
            else Inr (cs0, p0))"
    by auto
  ultimately show ?thesis by blast
qed

theorem container_tail_witness:
  "readChunkHeader short_container 0 =
      Inr (\<lparr>chunkSize = 32, chunkType = WRAPPER, flags = 0, description = None\<rparr>, 24)
   \<and> readChildren (\<lambda>x. []) 1 short_container 32 [] 24 = Inr ([], 24)
   \<and> readChunk (\<lambda>x. []) (Suc 1) short_container 0 =
      Inr (ContainerChunk WRAPPER \<lparr>chunkSize = 32, chunkType = WRAPPER, flags = 0, description = None\<rparr> [], 28)"
proof -
  define H where "H = \<lparr>chunkSize = 32, chunkType = WRAPPER, flags = 0, description = None\<rparr>"
  have h: "readChunkHeader short_container 0 = Inr (H, 24)"
    by (simp add: H_def short_container_def rd bytes_eval cong: bindE_weak_cong Let_weak_cong)
  have t: "isContainerType (chunkType H)"
    by (simp add: H_def isContainerType_def)
  have r: "readChildren (\<lambda>x. []) 1 short_container 32 [] 24 = Inr ([], 24)"
    by (simp add: rd)
  have r': "readChildren (\<lambda>x. []) 1 short_container (0 + unat (chunkSize H)) [] 24 = Inr ([], 24)"
    using r by (simp add: H_def)
  have l: "length short_container = 32"
    by (simp add: short_container_def le32_def)
  have p: "readPadding 24 = 24"
    by (simp add: readPadding_def padding_def)
  from container_tail [OF h t r']
  have "readChunk (\<lambda>x. []) (Suc 1) short_container 0 =
          (if readPadding 24 + 4 \<le> length short_container
           then Inr (ContainerChunk (chunkType H) H [], readPadding 24 + 4)
           else Inl (ReadPastEnd (readPadding 24)))"
    by blast
  then have "readChunk (\<lambda>x. []) (Suc 1) short_container 0 = Inr (ContainerChunk WRAPPER H [], 28)"
    by (simp add: p l H_def del: readChunk.simps)
  then show ?thesis
    using h r unfolding H_def by (simp del: readChunk.simps)
qed

end
